theory Spec2Isabelle
  imports Complex_Main "HOL-Library.Word"
begin

section \<open>Fixed-point numbers and 2D linear algebra\<close>

text \<open>
  The program is built with \<^verbatim>\<open>use_fixed_point_arithmetic = true\<close>, so \<^verbatim>\<open>Num\<close> is
  \<^verbatim>\<open>int64_t\<close>: a 64-bit word whose arithmetic wraps around and which is read as a two's
  complement number by every comparison (\<open><s\<close>, \<open>\<le>s\<close>).
\<close>

type_synonym Num = "64 word"

definition scale :: Num where
  "scale = 10000000"

definition epsilon :: Num where
  "epsilon = 0"

text \<open>
  \<^verbatim>\<open>abs\<close> as \<^verbatim>\<open>main\<close> of earclipper.cpp calls it, after \<^verbatim>\<open>using namespace std\<close>: the 64-bit
  overload \<^verbatim>\<open>std::abs(long)\<close>. The negation wraps, so the most negative number is its own
  absolute value.
\<close>

definition abs_Num :: "Num \<Rightarrow> Num" where
  "abs_Num n = (if n <s 0 then - n else n)"

text \<open>
  \<^verbatim>\<open>abs\<close> as la2d.h and the member functions of the class call it: unqualified, outside every
  using-directive, on an argument of a built-in type, which is \<^verbatim>\<open>int abs(int)\<close> of the C library.
  The caller's 64-bit argument is converted to \<^verbatim>\<open>int\<close> (its low 32 bits, \<open>ucast\<close>) and the
  result is widened again (\<open>scast\<close>) for the comparison with a \<^verbatim>\<open>Num\<close>. \<^verbatim>\<open>abs(INT_MIN)\<close> is
  undefined in C; the model takes the negation of the machine, which gives \<^verbatim>\<open>INT_MIN\<close> back.
\<close>

definition abs_int :: "32 word \<Rightarrow> 32 word" where
  "abs_int n = (if n <s 0 then - n else n)"

record Point =
  x :: Num
  y :: Num

type_synonym Vector = Point

text \<open>\<^verbatim>\<open>operator-(a, b)\<close> returns \<^verbatim>\<open>{b.x - a.x, b.y - a.y}\<close>: the second argument minus the
  first.\<close>

definition minus_Point :: "Point \<Rightarrow> Point \<Rightarrow> Vector" where
  "minus_Point a b = \<lparr>x = x b - x a, y = y b - y a\<rparr>"

definition cross_product :: "Vector \<Rightarrow> Vector \<Rightarrow> Num" where
  "cross_product a b = x a * y b - y a * x b"

definition triangle_area :: "Point \<Rightarrow> Point \<Rightarrow> Point \<Rightarrow> Num" where
  "triangle_area a b c =
     (let area = cross_product (minus_Point b a) (minus_Point c a)
      in if scast (abs_int (ucast area)) \<le>s epsilon then 0 else area)"

text \<open>The four early returns of \<^verbatim>\<open>inside_triangle\<close>, in the order of the source.\<close>

definition inside_triangle :: "Point \<Rightarrow> Point \<Rightarrow> Point \<Rightarrow> Point \<Rightarrow> bool" where
  "inside_triangle v a b c =
     (let vab = triangle_area v a b in
      if vab = 0 then False
      else let vbc = triangle_area v b c in
      if vbc = 0 then False
      else if (0 <s vab) \<noteq> (0 <s vbc) then False
      else let vca = triangle_area v c a in
      if vca = 0 then False
      else (0 <s vbc) = (0 <s vca))"

section \<open>The polygon store\<close>

text \<open>
  \<^verbatim>\<open>std::list<Point>\<close> is a sequence of nodes, and an iterator (\<^verbatim>\<open>PointPtr\<close>) names one node
  for as long as the node is in the list. A node is modelled as the pair of its address and
  the point it holds; \<^verbatim>\<open>*p\<close> is \<open>snd p\<close>. The addresses given out by the constructor are
  the positions in the input, so two vertices with the same coordinates stay two nodes.
\<close>

type_synonym PointPtr = "nat \<times> Point"

text \<open>The circular iterators: \<^verbatim>\<open>next\<close> wraps from the last node to the first, \<^verbatim>\<open>prev\<close> from
  the first to the last.\<close>

definition "next" :: "PointPtr list \<Rightarrow> PointPtr \<Rightarrow> PointPtr" where
  "next ps itr =
     (case dropWhile (\<lambda>q. q \<noteq> itr) ps of
        _ # q # _ \<Rightarrow> q
      | _ \<Rightarrow> hd ps)"

definition prev :: "PointPtr list \<Rightarrow> PointPtr \<Rightarrow> PointPtr" where
  "prev ps itr =
     (if itr = hd ps then last ps
      else last (takeWhile (\<lambda>q. q \<noteq> itr) ps))"

section \<open>Orientation\<close>

text \<open>
  The do-while loop of \<^verbatim>\<open>integrate_polygon\<close>: \<^verbatim>\<open>p0\<close> runs over the nodes from
  \<^verbatim>\<open>points.begin()\<close> on, \<^verbatim>\<open>p1 = next(p0)\<close>, and the loop stops when \<^verbatim>\<open>p0\<close> is back at
  \<^verbatim>\<open>points.begin()\<close>. The first argument is the node \<^verbatim>\<open>p1\<close> wraps to, the last one the
  running \<^verbatim>\<open>total\<close> (\<open>tot\<close>).
\<close>

fun integrate_loop :: "PointPtr \<Rightarrow> PointPtr list \<Rightarrow> Num \<Rightarrow> Num" where
  "integrate_loop b [] tot = tot"
| "integrate_loop b [p0] tot =
     tot + (y (snd p0) + y (snd b)) * (x (snd b) - x (snd p0))"
| "integrate_loop b (p0 # p1 # ps) tot =
     integrate_loop b (p1 # ps)
       (tot + (y (snd p0) + y (snd p1)) * (x (snd p1) - x (snd p0)))"

definition integrate_polygon :: "PointPtr list \<Rightarrow> Num" where
  "integrate_polygon ps =
     - (if length ps \<ge> 3 then integrate_loop (hd ps) ps 0 else 0)"

section \<open>The ear clipper\<close>

text \<open>
  The two \<^verbatim>\<open>std::unordered_set<PointPtr>\<close> are kept as duplicate-free lists:
  \<^verbatim>\<open>insert\<close> is \<^const>\<open>List.insert\<close>, \<^verbatim>\<open>erase\<close> is \<^const>\<open>removeAll\<close>. The order in which an
  unordered set is iterated is not fixed by the language, so the element that
  \<^verbatim>\<open>eartip_points.begin()\<close> yields is chosen by a parameter \<open>begin\<close> of the clipping loop.
  \<open>cout\<close> collects the triangles written to the output stream.
\<close>

record EarClipper =
  points :: "PointPtr list"
  eartip_points :: "PointPtr list"
  concav_points :: "PointPtr list"
  area_from_integral :: Num
  area_from_triangulation :: Num
  cout :: "(Point \<times> Point \<times> Point) list"

datatype abort =
    Assert_size          \<comment> \<open>\<^verbatim>\<open>assert(points.size() >= 3)\<close>\<close>
  | Assert_convex        \<comment> \<open>\<^verbatim>\<open>assert(area == 0 || check_convex(p1))\<close>\<close>
  | Assert_area          \<comment> \<open>the final comparison of the two areas\<close>
  | Invalid_iterator     \<comment> \<open>an iterator that names no node of \<^verbatim>\<open>points\<close> is used\<close>

definition check_convex :: "EarClipper \<Rightarrow> PointPtr \<Rightarrow> bool" where
  "check_convex s p1 =
     (let p0 = prev (points s) p1;
          p2 = next (points s) p1;
          area = triangle_area (snd p0) (snd p1) (snd p2)
      in area \<noteq> 0 \<and> (0 <s area) = (0 <s area_from_integral s))"

definition check_ear :: "EarClipper \<Rightarrow> PointPtr \<Rightarrow> bool" where
  "check_ear s p1 =
     (let p0 = prev (points s) p1;
          p2 = next (points s) p1
      in list_all (\<lambda>v. \<not> inside_triangle (snd v) (snd p0) (snd p1) (snd p2))
           (concav_points s))"

definition classify :: "PointPtr \<Rightarrow> EarClipper \<Rightarrow> EarClipper" where
  "classify p1 s =
     (if check_convex s p1
      then s\<lparr>eartip_points := List.insert p1 (eartip_points s)\<rparr>
      else s\<lparr>concav_points := List.insert p1 (concav_points s)\<rparr>)"

definition find_concave_and_eartips :: "EarClipper \<Rightarrow> EarClipper" where
  "find_concave_and_eartips s =
     (let s1 = fold classify (points s) s
      in s1\<lparr>eartip_points := filter (check_ear s1) (eartip_points s1)\<rparr>)"

text \<open>The constructor. Reading \<^verbatim>\<open>points.begin()\<close> of an empty list is undefined.\<close>

definition EarClipper_new :: "Point list \<Rightarrow> abort + EarClipper" where
  "EarClipper_new pts =
     (if pts = [] then Inl Invalid_iterator
      else
        let ps = enumerate 0 pts;
            ps = (if x (snd (hd ps)) = x (snd (last ps)) \<and> y (snd (hd ps)) = y (snd (last ps))
                  then butlast ps else ps)
        in if \<not> length ps \<ge> 3 then Inl Assert_size
           else Inr (find_concave_and_eartips
                  \<lparr>points = ps, eartip_points = [], concav_points = [],
                   area_from_integral = integrate_polygon ps,
                   area_from_triangulation = 0, cout = []\<rparr>))"

text \<open>The re-examination of one neighbour of the removed vertex.\<close>

definition update_neighbour :: "PointPtr \<Rightarrow> EarClipper \<Rightarrow> EarClipper" where
  "update_neighbour p s =
     (if check_convex s p then
        let s1 = s\<lparr>concav_points := removeAll p (concav_points s)\<rparr>
        in if check_ear s1 p
           then s1\<lparr>eartip_points := List.insert p (eartip_points s1)\<rparr>
           else s1\<lparr>eartip_points := removeAll p (eartip_points s1)\<rparr>
      else s)"

text \<open>One iteration of the clipping loop, for the ear tip \<open>p1\<close> it has selected.\<close>

definition clip :: "PointPtr \<Rightarrow> EarClipper \<Rightarrow> abort + EarClipper" where
  "clip p1 s =
     (if p1 \<notin> set (points s) then Inl Invalid_iterator
      else
        let p0 = prev (points s) p1;
            p2 = next (points s) p1;
            area = triangle_area (snd p0) (snd p1) (snd p2)
        in if \<not> (area = 0 \<or> check_convex s p1) then Inl Assert_convex
           else
             let s1 = (if area \<noteq> 0
                       then s\<lparr>area_from_triangulation := area_from_triangulation s + area,
                              cout := cout s @ [(snd p0, snd p1, snd p2)]\<rparr>
                       else s);
                 s2 = s1\<lparr>eartip_points := removeAll p1 (eartip_points s1)\<rparr>;
                 s3 = s2\<lparr>points := remove1 p1 (points s2)\<rparr>
             in Inr (update_neighbour p2 (update_neighbour p0 s3)))"

lemma update_neighbour_points: "points (update_neighbour p s) = points s"
  by (simp add: update_neighbour_def Let_def)

lemma clip_points:
  assumes "clip p1 s = Inr s'"
  shows "p1 \<in> set (points s)" and "points s' = remove1 p1 (points s)"
  using assms
  by (auto simp: clip_def Let_def update_neighbour_points split: if_splits)

lemma clip_length:
  "clip p1 s = Inr s' \<Longrightarrow> length (points s') < length (points s)"
proof -
  assume c: "clip p1 s = Inr s'"
  from clip_points(1) [OF c] have "0 < length (points s)"
    by (rule length_pos_if_in_set)
  with clip_points [OF c] show ?thesis
    by (simp add: length_remove1)
qed

text \<open>\<^verbatim>\<open>operator()\<close>: the clipping loop and the final consistency check.\<close>

function operator_call :: "(PointPtr list \<Rightarrow> PointPtr) \<Rightarrow> EarClipper \<Rightarrow> abort + EarClipper" where
  "operator_call begin s =
     (if eartip_points s \<noteq> [] \<and> length (points s) \<ge> 3 then
        (case clip (begin (eartip_points s)) s of
           Inl e \<Rightarrow> Inl e
         | Inr s' \<Rightarrow> operator_call begin s')
      else if scast (abs_int (ucast (area_from_triangulation s - area_from_integral s))) \<le>s
                (0 :: Num)
           then Inr s else Inl Assert_area)"
  by pat_completeness auto
termination
  by (relation "measure (\<lambda>(begin, s). length (points s))") (auto dest: clip_length)

section \<open>The first program: earclipper.cpp\<close>

text \<open>
  \<^verbatim>\<open>main\<close> of earclipper.cpp keeps no sets: every round of its outer loop walks \<^verbatim>\<open>p0\<close> once
  around the polygon and erases the first \<^verbatim>\<open>p1 = next(p0)\<close> that is degenerate or an ear. Its
  \<^verbatim>\<open>triangle_area\<close> has no snap to zero, and its ear test looks at every vertex other than
  \<^verbatim>\<open>p0\<close>, \<^verbatim>\<open>p1\<close>, \<^verbatim>\<open>p2\<close>. A round that finds no vertex to erase is repeated for ever:
  the loop is a partial function, \<open>None\<close> when it does not return.
\<close>

definition triangle_area_1 :: "Point \<Rightarrow> Point \<Rightarrow> Point \<Rightarrow> Num" where
  "triangle_area_1 a b c = cross_product (minus_Point b a) (minus_Point c a)"

definition inside_triangle_1 :: "Point \<Rightarrow> Point \<Rightarrow> Point \<Rightarrow> Point \<Rightarrow> bool" where
  "inside_triangle_1 v a b c =
     (let vab = triangle_area_1 v a b in
      if vab = 0 then False
      else let vbc = triangle_area_1 v b c in
      if vbc = 0 then False
      else if (0 <s vab) \<noteq> (0 <s vbc) then False
      else let vca = triangle_area_1 v c a in
      if vca = 0 then False
      else (0 <s vbc) = (0 <s vca))"

type_synonym main_state = "PointPtr list \<times> Num \<times> (Point \<times> Point \<times> Point) list"

text \<open>The body of the inner do-while loop for \<^verbatim>\<open>p0\<close> at position \<open>i\<close>: whether \<^verbatim>\<open>p1\<close> is
  erased, and the state if it is.\<close>

definition try_clip :: "Num \<Rightarrow> main_state \<Rightarrow> nat \<Rightarrow> main_state option" where
  "try_clip from_integral st i =
     (case st of (ps, from_triangulation, out) \<Rightarrow>
      let n = length ps;
          p0 = ps ! i; p1 = ps ! ((i + 1) mod n); p2 = ps ! ((i + 2) mod n);
          area = triangle_area_1 (snd p0) (snd p1) (snd p2);
          degenerate = (area = 0);
          is_ear = (\<not> degenerate \<and> (0 <s area) = (0 <s from_integral) \<and>
                    list_all (\<lambda>k. \<not> inside_triangle_1 (snd (ps ! ((i + 3 + k) mod n)))
                                      (snd p0) (snd p1) (snd p2)) [0 ..< n - 3])
      in if degenerate \<or> is_ear
         then Some (remove1 p1 ps,
                    if is_ear then from_triangulation + area else from_triangulation,
                    if is_ear then out @ [(snd p0, snd p1, snd p2)] else out)
         else None)"

definition clip_round :: "Num \<Rightarrow> main_state \<Rightarrow> main_state option" where
  "clip_round from_integral st =
     (case List.find (\<lambda>i. try_clip from_integral st i \<noteq> None) [0 ..< length (fst st)] of
        None \<Rightarrow> None
      | Some i \<Rightarrow> try_clip from_integral st i)"

partial_function (option) clip_loop :: "Num \<Rightarrow> main_state \<Rightarrow> main_state option" where
  "clip_loop from_integral st =
     (if length (fst st) \<ge> 3 then
        (case clip_round from_integral st of
           None \<Rightarrow> clip_loop from_integral st
         | Some st' \<Rightarrow> clip_loop from_integral st')
      else Some st)"

declare clip_loop.simps [code]

text \<open>\<^verbatim>\<open>main\<close>: \<open>None\<close> when the clipping loop does not return.\<close>

definition main :: "Point list \<Rightarrow> (abort + main_state) option" where
  "main pts =
     (if \<not> length pts \<ge> 3 then Some (Inl Assert_size)
      else
        let ps = enumerate 0 pts;
            ps = (if x (snd (hd ps)) = x (snd (last ps)) \<and> y (snd (hd ps)) = y (snd (last ps))
                  then butlast ps else ps);
            from_integral = integrate_polygon ps
        in case clip_loop from_integral (ps, 0, []) of
             None \<Rightarrow> None
           | Some (ps', from_triangulation, out) \<Rightarrow>
               if abs_Num (from_triangulation - from_integral) \<le>s 0
               then Some (Inr (ps', from_triangulation, out))
               else Some (Inl Assert_area))"

section \<open>The free function template of integrate\_polygon.h\<close>

text \<open>
  The template \<^verbatim>\<open>integrate_polygon(PointList const&)\<close> stands outside the class, where
  \<^verbatim>\<open>next(p0)\<close> on a list iterator is \<^verbatim>\<open>std::next\<close>, which does not wrap: after the last node
  \<^verbatim>\<open>p1\<close> is \<^verbatim>\<open>points.end()\<close>, and the next round of the loop reads \<^verbatim>\<open>p1->y\<close> through it.
\<close>

fun integrate_loop_template :: "PointPtr list \<Rightarrow> Num \<Rightarrow> abort + Num" where
  "integrate_loop_template (p0 # p1 # ps) tot =
     integrate_loop_template (p1 # ps)
       (tot + (y (snd p0) + y (snd p1)) * (x (snd p1) - x (snd p0)))"
| "integrate_loop_template ps tot = Inl Invalid_iterator"

definition integrate_polygon_template :: "PointPtr list \<Rightarrow> abort + Num" where
  "integrate_polygon_template ps =
     (if length ps \<ge> 3 then
        (case integrate_loop_template ps 0 of
           Inl e \<Rightarrow> Inl e
         | Inr tot \<Rightarrow> Inr (- tot))
      else Inr (- 0))"

section \<open>The notions of the specification\<close>

subsection \<open>Areas\<close>

text \<open>The snap of \<^const>\<open>triangle_area\<close>: with \<open>epsilon = 0\<close> it sends to \<open>0\<close> every number whose
  low 32 bits are those of \<open>0\<close> or of \<^verbatim>\<open>INT_MIN\<close>, that is every multiple of \<open>2\<^sup>3\<^sup>1\<close>.\<close>

definition snap :: "Num \<Rightarrow> Num" where
  "snap n = (if scast (abs_int (ucast n)) \<le>s epsilon then 0 else n)"

text \<open>The snap leaves the area of a triangle as the cross product gives it: it has changed
  nothing, or an exact zero only.\<close>

definition exact_snap :: "Point \<Rightarrow> Point \<Rightarrow> Point \<Rightarrow> bool" where
  "exact_snap a b c \<longleftrightarrow>
     triangle_area a b c = cross_product (minus_Point b a) (minus_Point c a)"

text \<open>The circularly consecutive pairs of a polygon, and the two sums of the
  specification over them: the trapezoid form and the shoelace form.\<close>

definition edges :: "PointPtr list \<Rightarrow> (PointPtr \<times> PointPtr) list" where
  "edges ps = zip ps (rotate1 ps)"

definition trapezoid_sum :: "PointPtr list \<Rightarrow> Num" where
  "trapezoid_sum ps =
     sum_list (map (\<lambda>(p0, p1). (y (snd p0) + y (snd p1)) * (x (snd p1) - x (snd p0)))
                (edges ps))"

definition shoelace :: "PointPtr list \<Rightarrow> Num" where
  "shoelace ps =
     sum_list (map (\<lambda>(p0, p1). x (snd p0) * y (snd p1) - x (snd p1) * y (snd p0))
                (edges ps))"

text \<open>The term of one edge in the shoelace sum, and the sum along a path of nodes that is
  not closed.\<close>

definition cr :: "PointPtr \<Rightarrow> PointPtr \<Rightarrow> Num" where
  "cr p q = x (snd p) * y (snd q) - x (snd q) * y (snd p)"

fun path :: "PointPtr list \<Rightarrow> Num" where
  "path (p # q # ps) = cr p q + path (q # ps)"
| "path ps = 0"

text \<open>What the triangles written so far and the polygon that remains add up to, against the
  integrated area of the input.\<close>

definition area_defect :: "EarClipper \<Rightarrow> Num" where
  "area_defect s = area_from_triangulation s + shoelace (points s) - area_from_integral s"

subsection \<open>Exact geometry\<close>

text \<open>
  The geometry the predicate is meant to decide, on the exact values of the coordinates
  (\<open>X\<close>, \<open>Y\<close>: the numbers the words stand for). A point lies strictly inside a triangle
  when the triangle is not flat and the point is a combination of the three corners with
  three positive weights that add up to one.
\<close>

definition X :: "Point \<Rightarrow> int" where
  "X p = sint (x p)"

definition Y :: "Point \<Rightarrow> int" where
  "Y p = sint (y p)"

definition orient :: "Point \<Rightarrow> Point \<Rightarrow> Point \<Rightarrow> int" where
  "orient a b c = (X b - X a) * (Y c - Y a) - (Y b - Y a) * (X c - X a)"

definition strictly_inside :: "Point \<Rightarrow> Point \<Rightarrow> Point \<Rightarrow> Point \<Rightarrow> bool" where
  "strictly_inside v a b c \<longleftrightarrow>
     orient a b c \<noteq> 0 \<and>
     (\<exists>(\<alpha>::real) (\<beta>::real) (\<gamma>::real).
        0 < \<alpha> \<and> 0 < \<beta> \<and> 0 < \<gamma> \<and> \<alpha> + \<beta> + \<gamma> = 1 \<and>
        real_of_int (X v) = \<alpha> * X a + \<beta> * X b + \<gamma> * X c \<and>
        real_of_int (Y v) = \<alpha> * Y a + \<beta> * Y b + \<gamma> * Y c)"

text \<open>Coordinates for which no difference, product or cross product of the predicates
  leaves the 64-bit range.\<close>

definition in_range :: "Point \<Rightarrow> bool" where
  "in_range p \<longleftrightarrow> - (2 ^ 30) < X p \<and> X p < 2 ^ 30 \<and> - (2 ^ 30) < Y p \<and> Y p < 2 ^ 30"

text \<open>The orientation determinant on real numbers, for the barycentric weights.\<close>

definition det :: "real \<Rightarrow> real \<Rightarrow> real \<Rightarrow> real \<Rightarrow> real \<Rightarrow> real \<Rightarrow> real" where
  "det ax ay bx by cx cy = (bx - ax) * (cy - ay) - (by - ay) * (cx - ax)"

text \<open>
  A simple polygon, on the exact coordinates: at least three vertices, no two at the same
  place, two edges that are not neighbours have no point in common, and two neighbouring
  edges have only their common vertex in common (the second does not run back over the
  first).
\<close>

definition on_segment :: "Point \<Rightarrow> Point \<Rightarrow> Point \<Rightarrow> bool" where
  "on_segment p q r \<longleftrightarrow>
     min (X p) (X q) \<le> X r \<and> X r \<le> max (X p) (X q) \<and>
     min (Y p) (Y q) \<le> Y r \<and> Y r \<le> max (Y p) (Y q)"

definition segments_meet :: "Point \<Rightarrow> Point \<Rightarrow> Point \<Rightarrow> Point \<Rightarrow> bool" where
  "segments_meet p q r s \<longleftrightarrow>
     (let d1 = orient r s p; d2 = orient r s q; d3 = orient p q r; d4 = orient p q s in
      (0 < d1 \<and> d2 < 0 \<or> d1 < 0 \<and> 0 < d2) \<and> (0 < d3 \<and> d4 < 0 \<or> d3 < 0 \<and> 0 < d4) \<or>
      d1 = 0 \<and> on_segment r s p \<or> d2 = 0 \<and> on_segment r s q \<or>
      d3 = 0 \<and> on_segment p q r \<or> d4 = 0 \<and> on_segment p q s)"

definition folds_back :: "Point \<Rightarrow> Point \<Rightarrow> Point \<Rightarrow> bool" where
  "folds_back a b c \<longleftrightarrow>
     orient a b c = 0 \<and> 0 < (X a - X b) * (X c - X b) + (Y a - Y b) * (Y c - Y b)"

definition simple_polygon :: "Point list \<Rightarrow> bool" where
  "simple_polygon ps \<longleftrightarrow>
     (let n = length ps in
      3 \<le> n \<and> distinct (map (\<lambda>p. (X p, Y p)) ps) \<and>
      list_all (\<lambda>i. list_all (\<lambda>j.
          if j = i + 1 then \<not> folds_back (ps ! i) (ps ! j) (ps ! ((j + 1) mod n))
          else if i = 0 \<and> j = n - 1 then \<not> folds_back (ps ! j) (ps ! 0) (ps ! 1)
          else \<not> segments_meet (ps ! i) (ps ! (i + 1)) (ps ! j) (ps ! ((j + 1) mod n)))
        [i + 1 ..< n]) [0 ..< n])"

definition no_three_consecutive_collinear :: "Point list \<Rightarrow> bool" where
  "no_three_consecutive_collinear ps \<longleftrightarrow>
     (let n = length ps in
      list_all (\<lambda>i. orient (ps ! i) (ps ! ((i + 1) mod n)) (ps ! ((i + 2) mod n)) \<noteq> 0) [0 ..< n])"

subsection \<open>States of the clipper\<close>

text \<open>The ear test of the specification's glossary: no other vertex that remains in the
  polygon lies strictly inside the triangle of \<open>p1\<close>.\<close>

definition check_ear_all :: "EarClipper \<Rightarrow> PointPtr \<Rightarrow> bool" where
  "check_ear_all s p1 =
     (let p0 = prev (points s) p1;
          p2 = next (points s) p1
      in list_all (\<lambda>v. \<not> inside_triangle (snd v) (snd p0) (snd p1) (snd p2))
           (filter (\<lambda>v. v \<noteq> p0 \<and> v \<noteq> p1 \<and> v \<noteq> p2) (points s)))"

text \<open>The sets name nodes of the polygon, no node twice, and no node is in both.\<close>

definition wf :: "EarClipper \<Rightarrow> bool" where
  "wf s \<longleftrightarrow>
     distinct (points s) \<and> distinct (eartip_points s) \<and> distinct (concav_points s) \<and>
     set (eartip_points s) \<subseteq> set (points s) \<and> set (concav_points s) \<subseteq> set (points s) \<and>
     set (eartip_points s) \<inter> set (concav_points s) = {}"

text \<open>The state of an iteration after the two \<^verbatim>\<open>erase\<close> calls, before the neighbours are
  re-examined.\<close>

definition erased :: "PointPtr \<Rightarrow> EarClipper \<Rightarrow> EarClipper" where
  "erased p1 s =
     (let p0 = prev (points s) p1;
          p2 = next (points s) p1;
          area = triangle_area (snd p0) (snd p1) (snd p2);
          s1 = (if area \<noteq> 0
                then s\<lparr>area_from_triangulation := area_from_triangulation s + area,
                       cout := cout s @ [(snd p0, snd p1, snd p2)]\<rparr>
                else s)
      in s1\<lparr>eartip_points := removeAll p1 (eartip_points s1),
             points := remove1 p1 (points s1)\<rparr>)"

text \<open>The states that arise during clipping: the one the constructor builds, and every
  state an iteration of the loop produces from such a state, whichever ear tip
  \<^verbatim>\<open>eartip_points.begin()\<close> yields.\<close>

inductive arising :: "EarClipper \<Rightarrow> bool" where
  constructed: "EarClipper_new pts = Inr s \<Longrightarrow> arising s"
| clipped: "arising s \<Longrightarrow> eartip_points s \<noteq> [] \<Longrightarrow> length (points s) \<ge> 3 \<Longrightarrow>
     p1 \<in> set (eartip_points s) \<Longrightarrow> clip p1 s = Inr s' \<Longrightarrow> arising s'"

text \<open>Two counters over the iterations of \<^const>\<open>operator_call\<close>: the iterations it starts, and
  the iterations whose ear is degenerate (its triangle has area zero).\<close>

function iterations :: "(PointPtr list \<Rightarrow> PointPtr) \<Rightarrow> EarClipper \<Rightarrow> nat" where
  "iterations begin s =
     (if eartip_points s \<noteq> [] \<and> length (points s) \<ge> 3 then
        (case clip (begin (eartip_points s)) s of
           Inl e \<Rightarrow> 1
         | Inr s' \<Rightarrow> Suc (iterations begin s'))
      else 0)"
  by pat_completeness auto
termination
  by (relation "measure (\<lambda>(begin, s). length (points s))") (auto dest: clip_length)

function degenerate_ears :: "(PointPtr list \<Rightarrow> PointPtr) \<Rightarrow> EarClipper \<Rightarrow> nat" where
  "degenerate_ears begin s =
     (if eartip_points s \<noteq> [] \<and> length (points s) \<ge> 3 then
        (let p1 = begin (eartip_points s) in
         case clip p1 s of
           Inl e \<Rightarrow> 0
         | Inr s' \<Rightarrow>
             (if triangle_area (snd (prev (points s) p1)) (snd p1) (snd (next (points s) p1)) = 0
              then 1 else 0) + degenerate_ears begin s')
      else 0)"
  by pat_completeness auto
termination
  by (relation "measure (\<lambda>(begin, s). length (points s))") (auto dest: clip_length)

declare operator_call.simps [simp del] iterations.simps [simp del] degenerate_ears.simps [simp del]

text \<open>The first \<open>n\<close> iterations of the clipping loop, to show the state the loop is left in.\<close>

fun clip_steps :: "nat \<Rightarrow> (PointPtr list \<Rightarrow> PointPtr) \<Rightarrow> EarClipper \<Rightarrow> abort + EarClipper" where
  "clip_steps 0 begin s = Inr s"
| "clip_steps (Suc n) begin s =
     (case clip (begin (eartip_points s)) s of
        Inl e \<Rightarrow> Inl e
      | Inr s' \<Rightarrow> clip_steps n begin s')"

section \<open>Polygons and states of the examples\<close>

text \<open>The point \<^verbatim>\<open>read_from_file\<close> stores for an input line with the whole numbers \<open>a\<close>
  and \<open>b\<close>: each coordinate times \<^const>\<open>scale\<close>.\<close>

definition scaled :: "int \<Rightarrow> int \<Rightarrow> Point" where
  "scaled a b = \<lparr>x = word_of_int a * scale, y = word_of_int b * scale\<rparr>"

definition ccw_triangle :: "PointPtr list" where
  "ccw_triangle =
     enumerate 0 [\<lparr>x = 0, y = 0\<rparr>, \<lparr>x = 4 * scale, y = 0\<rparr>, \<lparr>x = 0, y = 3 * scale\<rparr>]"

text \<open>A triangle with legs of 4 units, a point inside it and a point on one of its edges.\<close>

definition tri_a :: Point where
  "tri_a = \<lparr>x = 0, y = 0\<rparr>"

definition tri_b :: Point where
  "tri_b = \<lparr>x = 4 * scale, y = 0\<rparr>"

definition tri_c :: Point where
  "tri_c = \<lparr>x = 0, y = 4 * scale\<rparr>"

definition tri_inner :: Point where
  "tri_inner = \<lparr>x = scale, y = scale\<rparr>"

definition tri_on_edge :: Point where
  "tri_on_edge = \<lparr>x = 2 * scale, y = 0\<rparr>"



text \<open>Three corners whose triangle with the origin has an area of \<open>- 2\<^sup>6\<^sup>3\<close>.\<close>

definition wide_a :: Point where
  "wide_a = \<lparr>x = 2 ^ 32, y = 0\<rparr>"

definition wide_b :: Point where
  "wide_b = \<lparr>x = 0, y = - (2 ^ 31)\<rparr>"

definition wide_c :: Point where
  "wide_c = \<lparr>x = - 1, y = 1\<rparr>"

text \<open>A triangle around the origin for which the area of the origin with the first two
  corners is \<open>2\<^sup>3\<^sup>2\<close>.\<close>

definition low_a :: Point where
  "low_a = \<lparr>x = 65536, y = - 1\<rparr>"

definition low_b :: Point where
  "low_b = \<lparr>x = 65536, y = 65535\<rparr>"

definition low_c :: Point where
  "low_c = \<lparr>x = - 65536, y = 0\<rparr>"

text \<open>Scenario A of the specification, the triangle, and its state after construction and
  after its ear at the apex is clipped.\<close>

definition triangle :: "Point list" where
  "triangle = [scaled 0 0, scaled 4 0, scaled 0 3]"

definition triangle0 :: EarClipper where
  "triangle0 =
     \<lparr>points = [(0, scaled 0 0), (1, scaled 4 0), (2, scaled 0 3)],
      eartip_points = [(2, scaled 0 3), (1, scaled 4 0), (0, scaled 0 0)],
      concav_points = [],
      area_from_integral = 12 * scale * scale,
      area_from_triangulation = 0,
      cout = []\<rparr>"

definition triangle1 :: EarClipper where
  "triangle1 =
     \<lparr>points = [(0, scaled 0 0), (1, scaled 4 0)],
      eartip_points = [(1, scaled 4 0), (0, scaled 0 0)],
      concav_points = [],
      area_from_integral = 12 * scale * scale,
      area_from_triangulation = 12 * scale * scale,
      cout = [(scaled 4 0, scaled 0 3, scaled 0 0)]\<rparr>"

text \<open>Scenario B of the specification, the square, and its state after construction and
  after the ear at the last corner is clipped.\<close>

definition square :: "Point list" where
  "square = [scaled 0 0, scaled 4 0, scaled 4 4, scaled 0 4]"

definition square0 :: EarClipper where
  "square0 =
     \<lparr>points = [(0, scaled 0 0), (1, scaled 4 0), (2, scaled 4 4), (3, scaled 0 4)],
      eartip_points = [(3, scaled 0 4), (2, scaled 4 4), (1, scaled 4 0), (0, scaled 0 0)],
      concav_points = [],
      area_from_integral = 32 * scale * scale,
      area_from_triangulation = 0,
      cout = []\<rparr>"

definition square1 :: EarClipper where
  "square1 =
     \<lparr>points = [(0, scaled 0 0), (1, scaled 4 0), (2, scaled 4 4)],
      eartip_points = [(2, scaled 4 4), (1, scaled 4 0), (0, scaled 0 0)],
      concav_points = [],
      area_from_integral = 32 * scale * scale,
      area_from_triangulation = 16 * scale * scale,
      cout = [(scaled 4 4, scaled 0 4, scaled 0 0)]\<rparr>"

definition square2 :: EarClipper where
  "square2 =
     \<lparr>points = [(0, scaled 0 0), (1, scaled 4 0)],
      eartip_points = [(1, scaled 4 0), (0, scaled 0 0)],
      concav_points = [],
      area_from_integral = 32 * scale * scale,
      area_from_triangulation = 32 * scale * scale,
      cout = [(scaled 4 4, scaled 0 4, scaled 0 0), (scaled 4 0, scaled 4 4, scaled 0 0)]\<rparr>"

text \<open>Scenario A with a fourth vertex in the middle of its first edge, and its state after
  the ear at the apex is clipped and after the next iteration: the three vertices that
  remain after the first are on one line.\<close>

definition flat :: "Point list" where
  "flat = [scaled 0 0, scaled 2 0, scaled 4 0, scaled 0 3]"

definition flat1 :: EarClipper where
  "flat1 =
     \<lparr>points = [(0, scaled 0 0), (1, scaled 2 0), (2, scaled 4 0)],
      eartip_points = [(2, scaled 4 0), (0, scaled 0 0)],
      concav_points = [(1, scaled 2 0)],
      area_from_integral = 12 * scale * scale,
      area_from_triangulation = 12 * scale * scale,
      cout = [(scaled 4 0, scaled 0 3, scaled 0 0)]\<rparr>"

definition flat2 :: EarClipper where
  "flat2 =
     \<lparr>points = [(0, scaled 0 0), (1, scaled 2 0)],
      eartip_points = [(0, scaled 0 0)],
      concav_points = [(1, scaled 2 0)],
      area_from_integral = 12 * scale * scale,
      area_from_triangulation = 12 * scale * scale,
      cout = [(scaled 4 0, scaled 0 3, scaled 0 0)]\<rparr>"

text \<open>A simple pentagon whose vertex \<open>(1, 2)\<close> lies on the diagonal from \<open>(2, 3)\<close> to \<open>(0, 1)\<close>, its
  state after construction and the state the loop leaves.\<close>

definition pentagon :: "Point list" where
  "pentagon = [scaled 0 1, scaled 2 0, scaled 1 2, scaled 2 3, scaled 0 3]"

definition pentagon0 :: EarClipper where
  "pentagon0 =
     \<lparr>points = [(0, scaled 0 1), (1, scaled 2 0), (2, scaled 1 2), (3, scaled 2 3), (4, scaled 0 3)],
      eartip_points = [(4, scaled 0 3), (3, scaled 2 3), (1, scaled 2 0), (0, scaled 0 1)],
      concav_points = [(2, scaled 1 2)],
      area_from_integral = 7 * scale * scale,
      area_from_triangulation = 0,
      cout = []\<rparr>"

definition pentagon3 :: EarClipper where
  "pentagon3 =
     \<lparr>points = [(0, scaled 0 1), (1, scaled 2 0)],
      eartip_points = [(1, scaled 2 0), (0, scaled 0 1)],
      concav_points = [],
      area_from_integral = 7 * scale * scale,
      area_from_triangulation = 7 * scale * scale,
      cout = [(scaled 2 3, scaled 0 3, scaled 0 1), (scaled 2 0, scaled 1 2, scaled 0 1)]\<rparr>"

definition pentagon_main :: main_state where
  "pentagon_main =
     ([(0, scaled 0 1), (4, scaled 0 3)], 7 * scale * scale,
      [(scaled 0 1, scaled 2 0, scaled 1 2), (scaled 0 1, scaled 2 3, scaled 0 3)])"

text \<open>A simple hexagon whose vertex \<open>(2, 1)\<close> lies on the diagonal from \<open>(3, 0)\<close> to \<open>(0, 3)\<close>, its
  state after construction, after the ear at \<open>(1, 1)\<close> is clipped and after the ear at
  \<open>(3, 0)\<close> is clipped, and the state in which \<^verbatim>\<open>main\<close> of earclipper.cpp leaves its loop.\<close>

definition hexagon :: "Point list" where
  "hexagon = [scaled 0 3, scaled 2 2, scaled 2 1, scaled 3 3, scaled 3 0, scaled 1 1]"

definition hexagon0 :: EarClipper where
  "hexagon0 =
     \<lparr>points = [(0, scaled 0 3), (1, scaled 2 2), (2, scaled 2 1), (3, scaled 3 3),
                (4, scaled 3 0), (5, scaled 1 1)],
      eartip_points = [(5, scaled 1 1), (3, scaled 3 3), (1, scaled 2 2), (0, scaled 0 3)],
      concav_points = [(2, scaled 2 1)],
      area_from_integral = - (8 * scale * scale),
      area_from_triangulation = 0,
      cout = []\<rparr>"

definition hexagon1 :: EarClipper where
  "hexagon1 =
     \<lparr>points = [(0, scaled 0 3), (1, scaled 2 2), (2, scaled 2 1), (3, scaled 3 3),
                (4, scaled 3 0)],
      eartip_points = [(4, scaled 3 0), (3, scaled 3 3), (1, scaled 2 2), (0, scaled 0 3)],
      concav_points = [(2, scaled 2 1)],
      area_from_integral = - (8 * scale * scale),
      area_from_triangulation = - (3 * scale * scale),
      cout = [(scaled 3 0, scaled 1 1, scaled 0 3)]\<rparr>"

definition hexagon2 :: EarClipper where
  "hexagon2 =
     \<lparr>points = [(0, scaled 0 3), (1, scaled 2 2), (2, scaled 2 1), (3, scaled 3 3)],
      eartip_points = [(3, scaled 3 3), (1, scaled 2 2), (0, scaled 0 3)],
      concav_points = [(2, scaled 2 1)],
      area_from_integral = - (8 * scale * scale),
      area_from_triangulation = - (12 * scale * scale),
      cout = [(scaled 3 0, scaled 1 1, scaled 0 3), (scaled 3 3, scaled 3 0, scaled 0 3)]\<rparr>"

definition hexagon_end :: main_state where
  "hexagon_end =
     ([(0, scaled 0 3), (5, scaled 1 1)], - (8 * scale * scale),
      [(scaled 0 3, scaled 2 2, scaled 2 1), (scaled 2 1, scaled 3 3, scaled 3 0),
       (scaled 0 3, scaled 3 0, scaled 1 1)])"

text \<open>A simple polygon of nine vertices, its state after construction and after six
  iterations of the loop.\<close>

definition nonagon :: "Point list" where
  "nonagon = [scaled 0 2, scaled 0 0, scaled 2 1, scaled 1 1, scaled 1 2, scaled 3 1,
              scaled 3 3, scaled 2 2, scaled 2 3]"

definition nonagon0 :: EarClipper where
  "nonagon0 =
     \<lparr>points = [(0, scaled 0 2), (1, scaled 0 0), (2, scaled 2 1), (3, scaled 1 1),
                (4, scaled 1 2), (5, scaled 3 1), (6, scaled 3 3), (7, scaled 2 2),
                (8, scaled 2 3)],
      eartip_points = [(8, scaled 2 3), (6, scaled 3 3), (2, scaled 2 1)],
      concav_points = [(7, scaled 2 2), (4, scaled 1 2), (3, scaled 1 1)],
      area_from_integral = 9 * scale * scale,
      area_from_triangulation = 0,
      cout = []\<rparr>"

definition nonagon6 :: EarClipper where
  "nonagon6 =
     \<lparr>points = [(3, scaled 1 1), (4, scaled 1 2), (5, scaled 3 1)],
      eartip_points = [],
      concav_points = [(4, scaled 1 2), (3, scaled 1 1)],
      area_from_integral = 9 * scale * scale,
      area_from_triangulation = 11 * scale * scale,
      cout = [(scaled 2 2, scaled 2 3, scaled 0 2), (scaled 2 2, scaled 0 2, scaled 0 0),
              (scaled 2 2, scaled 0 0, scaled 2 1), (scaled 3 3, scaled 2 2, scaled 2 1),
              (scaled 3 1, scaled 3 3, scaled 2 1)]\<rparr>"

text \<open>A simple pentagon whose vertex \<open>(2, 2)\<close> lies on the diagonal from \<open>(3, 2)\<close> to \<open>(1, 2)\<close>, and
  the states of \<^verbatim>\<open>main\<close> after one and after two rounds of its loop.\<close>

definition dart :: "Point list" where
  "dart = [scaled 3 2, scaled 3 3, scaled 1 2, scaled 0 1, scaled 2 2]"

definition dart1 :: main_state where
  "dart1 =
     ([(0, scaled 3 2), (2, scaled 1 2), (3, scaled 0 1), (4, scaled 2 2)],
      2 * scale * scale, [(scaled 3 2, scaled 3 3, scaled 1 2)])"

definition dart2 :: main_state where
  "dart2 =
     ([(0, scaled 3 2), (3, scaled 0 1), (4, scaled 2 2)],
      4 * scale * scale,
      [(scaled 3 2, scaled 3 3, scaled 1 2), (scaled 3 2, scaled 1 2, scaled 0 1)])"

section \<open>The signed area\<close>

subsection \<open>The snap to zero\<close>

text \<open>What \<^verbatim>\<open>abs(area) <= epsilon\<close> decides: the low 31 bits of the area are zero.\<close>

lemma sint_min_Num: "sint (- (2 ^ 63) :: Num) = - (2 ^ 63)"
  by simp

lemma sint_min_int: "sint (- (2 ^ 31) :: 32 word) = - (2 ^ 31)"
  by simp

lemma abs_int_sle_zero: "sint (abs_int m) \<le> 0 \<longleftrightarrow> m = 0 \<or> m = - (2 ^ 31)"
proof (cases "m <s 0")
  case True
  then have neg: "sint m < 0" by (simp add: word_sless_alt)
  have lo: "- (2 ^ 31) \<le> sint m" using sint_ge [of m] by simp
  show ?thesis
  proof (cases "sint m = - (2 ^ 31)")
    case True
    then have "m = - (2 ^ 31)"
      by (metis signed_word_eqI sint_min_int)
    then show ?thesis by (simp add: abs_int_def word_sless_alt)
  next
    case False
    then have b: "- (2 ^ 31) < sint m" using lo by simp
    have "sint (- m) = - sint m"
      using b neg by (simp add: sint_word_ariths signed_take_bit_int_eq_self)
    moreover have "m \<noteq> 0" using neg by auto
    moreover have "m \<noteq> - (2 ^ 31)" using False by auto
    ultimately show ?thesis using True neg by (simp add: abs_int_def)
  qed
next
  case False
  then have "0 \<le> sint m" by (simp add: word_sless_alt)
  moreover have "sint m = 0 \<longleftrightarrow> m = 0" by (metis signed_eq_0_iff)
  moreover have "m \<noteq> - (2 ^ 31)" using False by (auto simp: word_sless_alt)
  ultimately show ?thesis using False by (auto simp: abs_int_def)
qed

lemma scast_sle: "(scast (m :: 32 word) :: Num) \<le>s 0 \<longleftrightarrow> sint m \<le> 0"
  by (simp add: word_sle_eq sint_up_scast is_up)

lemma halves:
  fixes A u :: int
  assumes "0 < A"
  shows "u mod (2 * A) = 0 \<or> u mod (2 * A) = A \<longleftrightarrow> u mod A = 0"
proof -
  define r where "r = u mod (2 * A)"
  have b: "0 \<le> r" "r < 2 * A" using assms by (simp_all add: r_def)
  have m: "u mod A = r mod A" unfolding r_def by (simp add: mod_mod_cancel)
  show ?thesis
  proof (cases "r < A")
    case True
    then have "r mod A = r" using b by simp
    with True assms m show ?thesis unfolding r_def [symmetric] by auto
  next
    case False
    then have "(r - A) mod A = r - A"
      using b by (intro mod_pos_pos_trivial) simp_all
    moreover have "(r - A) mod A = r mod A" by simp
    ultimately have "r mod A = r - A" by simp
    with False assms m show ?thesis unfolding r_def [symmetric] by auto
  qed
qed

lemma ucast_low:
  "(ucast (n :: Num) :: 32 word) = 0 \<or> (ucast n :: 32 word) = - (2 ^ 31) \<longleftrightarrow> take_bit 31 n = 0"
proof -
  have m: "uint (- (2 ^ 31) :: 32 word) = 2 ^ 31" by simp
  have "(ucast n :: 32 word) = 0 \<longleftrightarrow> uint (ucast n :: 32 word) = 0"
    by (simp add: unsigned_eq_0_iff)
  moreover have "(ucast n :: 32 word) = - (2 ^ 31) \<longleftrightarrow> uint (ucast n :: 32 word) = 2 ^ 31"
    using m by (metis word_eq_iff_unsigned)
  moreover have "uint (ucast n :: 32 word) = uint n mod 2 ^ 32"
    by (simp add: unsigned_ucast_eq take_bit_eq_mod)
  moreover have "take_bit 31 n = 0 \<longleftrightarrow> uint n mod 2 ^ 31 = 0"
    by (metis unsigned_eq_0_iff unsigned_take_bit_eq take_bit_eq_mod)
  moreover have "uint n mod 2 ^ 32 = 0 \<or> uint n mod 2 ^ 32 = 2 ^ 31 \<longleftrightarrow> uint n mod 2 ^ 31 = 0"
    using halves [of "2 ^ 31" "uint n"] by simp
  ultimately show ?thesis by simp
qed

lemma snap_zero_iff:
  fixes n :: Num
  shows "(scast (abs_int (ucast n)) :: Num) \<le>s 0 \<longleftrightarrow> take_bit 31 n = 0"
  using ucast_low [of n] by (simp add: scast_sle abs_int_sle_zero)

lemma snap_iff: "snap n = (if take_bit 31 n = 0 then 0 else n)"
  by (simp add: snap_def epsilon_def snap_zero_iff)

lemma take_bit_minus: "take_bit 31 (- n) = 0 \<longleftrightarrow> take_bit 31 (n :: Num) = 0"
  by (simp add: take_bit_eq_0_iff)

lemma snap_minus: "snap (- n) = - snap n"
  by (simp add: snap_iff take_bit_minus)

lemma take_bit_min: "take_bit 31 (- (2 ^ 63) :: Num) = 0"
  by simp

lemma sint_minus:
  assumes "n \<noteq> - (2 ^ 63)"
  shows "sint (- n :: Num) = - sint n"
proof -
  have "sint n \<noteq> - (2 ^ 63)"
    using assms by (metis signed_word_eqI sint_min_Num)
  moreover have "- (2 ^ 63) \<le> sint n" using sint_ge [of n] by simp
  moreover have "sint n < 2 ^ 63" using sint_lt [of n] by simp
  ultimately show ?thesis
    by (simp add: sint_word_ariths signed_take_bit_int_eq_self)
qed

lemma sign_flip:
  assumes "take_bit 31 (n :: Num) \<noteq> 0"
  shows "0 <s - n \<longleftrightarrow> n <s 0" and "- n <s 0 \<longleftrightarrow> 0 <s n"
proof -
  have "n \<noteq> - (2 ^ 63)" using assms by auto
  then have "sint (- n) = - sint n" by (rule sint_minus)
  then show "0 <s - n \<longleftrightarrow> n <s 0" and "- n <s 0 \<longleftrightarrow> 0 <s n"
    by (simp_all add: word_sless_alt)
qed


lemma snap_sign_flip:
  fixes n :: Num
  shows "(0 <s snap (- n)) = (snap n <s 0)" and "(snap (- n) <s 0) = (0 <s snap n)"
  using sign_flip [of n] by (simp_all add: snap_iff take_bit_minus)

subsection \<open>Permutations of the corners\<close>

lemma triangle_area_snap:
  "triangle_area a b c = snap (cross_product (minus_Point b a) (minus_Point c a))"
  by (simp add: triangle_area_def snap_def Let_def)

lemma cross_product_cyclic:
  "cross_product (minus_Point b a) (minus_Point c a) =
   cross_product (minus_Point c b) (minus_Point a b)"
  by (simp add: cross_product_def minus_Point_def algebra_simps)

lemma cross_product_swap:
  "cross_product (minus_Point c a) (minus_Point b a) =
   - cross_product (minus_Point b a) (minus_Point c a)"
  by (simp add: cross_product_def minus_Point_def algebra_simps)

lemma triangle_area_cyclic: "triangle_area a b c = triangle_area b c a"
  unfolding triangle_area_snap by (subst cross_product_cyclic) (rule refl)

lemma triangle_area_swap: "triangle_area a c b = - triangle_area a b c"
  unfolding triangle_area_snap by (subst cross_product_swap) (rule snap_minus)

lemma triangle_area_swap_sign:
  "(0 <s triangle_area a c b) = (triangle_area a b c <s 0)"
  "(triangle_area a c b <s 0) = (0 <s triangle_area a b c)"
  unfolding triangle_area_snap by (subst cross_product_swap, rule snap_sign_flip)+

lemma triangle_area_1_cyclic: "triangle_area_1 a b c = triangle_area_1 b c a"
  unfolding triangle_area_1_def by (rule cross_product_cyclic)

lemma triangle_area_1_swap: "triangle_area_1 a c b = - triangle_area_1 a b c"
  unfolding triangle_area_1_def by (rule cross_product_swap)

lemma triangle_area_1_swap_sign:
  assumes "triangle_area_1 a b c \<noteq> - (2 ^ 63)"
  shows "(0 <s triangle_area_1 a c b) = (triangle_area_1 a b c <s 0)"
    and "(triangle_area_1 a c b <s 0) = (0 <s triangle_area_1 a b c)"
  using sint_minus [OF assms]
  unfolding triangle_area_1_swap [where a = a and b = b and c = c]
  by (simp_all add: word_sless_alt)

lemma inside_triangle_signs:
  "inside_triangle v a b c \<longleftrightarrow>
     (0 <s triangle_area v a b \<and> 0 <s triangle_area v b c \<and> 0 <s triangle_area v c a) \<or>
     (triangle_area v a b <s 0 \<and> triangle_area v b c <s 0 \<and> triangle_area v c a <s 0)"
  by (auto simp: inside_triangle_def Let_def word_sless_alt signed_eq_0_iff
        dest: order.strict_implies_not_eq)
     (metis linorder_neqE signed_eq_0_iff)+

lemma inside_triangle_1_signs:
  "inside_triangle_1 v a b c \<longleftrightarrow>
     (0 <s triangle_area_1 v a b \<and> 0 <s triangle_area_1 v b c \<and> 0 <s triangle_area_1 v c a) \<or>
     (triangle_area_1 v a b <s 0 \<and> triangle_area_1 v b c <s 0 \<and> triangle_area_1 v c a <s 0)"
  by (auto simp: inside_triangle_1_def Let_def word_sless_alt signed_eq_0_iff
        dest: order.strict_implies_not_eq)
     (metis linorder_neqE signed_eq_0_iff)+

lemma inside_triangle_cyclic: "inside_triangle v a b c = inside_triangle v b c a"
  unfolding inside_triangle_signs by blast

lemma inside_triangle_swap: "inside_triangle v a b c = inside_triangle v a c b"
  using triangle_area_swap_sign [of v c a] triangle_area_swap_sign [of v b c]
    triangle_area_swap_sign [of v a b]
  unfolding inside_triangle_signs by blast

lemma inside_triangle_1_cyclic: "inside_triangle_1 v a b c = inside_triangle_1 v b c a"
  unfolding inside_triangle_1_signs by blast

lemma inside_triangle_1_swap:
  assumes "triangle_area_1 v a b \<noteq> - (2 ^ 63)" "triangle_area_1 v b c \<noteq> - (2 ^ 63)"
    "triangle_area_1 v c a \<noteq> - (2 ^ 63)"
  shows "inside_triangle_1 v a b c = inside_triangle_1 v a c b"
  using triangle_area_1_swap_sign [OF assms(3)] triangle_area_1_swap_sign [OF assms(2)]
    triangle_area_1_swap_sign [OF assms(1)]
  unfolding inside_triangle_1_signs by blast

text \<open>
  Claim C10, as the code has it. In fixed-point mode the signed triangle area is the same for
  the three cyclic orders of its arguments, and swapping two arguments negates it, for all
  points (the 64-bit arithmetic wraps, and the identities hold for the wrapped values), with
  the snap to zero of la2d.h and without it, as in earclipper.cpp. With the snap a swap
  turns a positive area into a negative one and back, and \<^const>\<open>inside_triangle\<close> gives the same
  answer for every order of the corners. Without the snap \<^const>\<open>inside_triangle_1\<close> gives the same
  answer for the cyclic orders; a swap turns the sign of the area, and leaves the answer of
  \<^const>\<open>inside_triangle_1\<close> as it is, when no area involved is \<open>- 2\<^sup>6\<^sup>3\<close>, the number whose negation
  wraps to itself.
\<close>

theorem triangle_area_permutations:
  "triangle_area a b c = triangle_area b c a \<and>
   triangle_area b c a = triangle_area c a b \<and>
   triangle_area a c b = - triangle_area a b c \<and>
   triangle_area_1 a b c = triangle_area_1 b c a \<and>
   triangle_area_1 b c a = triangle_area_1 c a b \<and>
   triangle_area_1 a c b = - triangle_area_1 a b c \<and>
   (0 <s triangle_area a c b) = (triangle_area a b c <s 0) \<and>
   (triangle_area a c b <s 0) = (0 <s triangle_area a b c) \<and>
   inside_triangle v a b c = inside_triangle v b c a \<and>
   inside_triangle v a b c = inside_triangle v a c b \<and>
   inside_triangle_1 v a b c = inside_triangle_1 v b c a \<and>
   (triangle_area_1 a b c \<noteq> - (2 ^ 63) \<longrightarrow>
      (0 <s triangle_area_1 a c b) = (triangle_area_1 a b c <s 0) \<and>
      (triangle_area_1 a c b <s 0) = (0 <s triangle_area_1 a b c)) \<and>
   (triangle_area_1 v a b \<noteq> - (2 ^ 63) \<and> triangle_area_1 v b c \<noteq> - (2 ^ 63) \<and>
    triangle_area_1 v c a \<noteq> - (2 ^ 63) \<longrightarrow>
      inside_triangle_1 v a b c = inside_triangle_1 v a c b)"
proof (intro conjI impI)
  show "triangle_area a b c = triangle_area b c a" by (rule triangle_area_cyclic)
  show "triangle_area b c a = triangle_area c a b" by (rule triangle_area_cyclic)
  show "triangle_area a c b = - triangle_area a b c" by (rule triangle_area_swap)
  show "triangle_area_1 a b c = triangle_area_1 b c a" by (rule triangle_area_1_cyclic)
  show "triangle_area_1 b c a = triangle_area_1 c a b" by (rule triangle_area_1_cyclic)
  show "triangle_area_1 a c b = - triangle_area_1 a b c" by (rule triangle_area_1_swap)
  show "(0 <s triangle_area a c b) = (triangle_area a b c <s 0)"
    by (rule triangle_area_swap_sign)
  show "(triangle_area a c b <s 0) = (0 <s triangle_area a b c)"
    by (rule triangle_area_swap_sign)
  show "inside_triangle v a b c = inside_triangle v b c a" by (rule inside_triangle_cyclic)
  show "inside_triangle v a b c = inside_triangle v a c b" by (rule inside_triangle_swap)
  show "inside_triangle_1 v a b c = inside_triangle_1 v b c a"
    by (rule inside_triangle_1_cyclic)
  show "(0 <s triangle_area_1 a c b) = (triangle_area_1 a b c <s 0)"
    if "triangle_area_1 a b c \<noteq> - (2 ^ 63)"
    using that by (rule triangle_area_1_swap_sign)
  show "(triangle_area_1 a c b <s 0) = (0 <s triangle_area_1 a b c)"
    if "triangle_area_1 a b c \<noteq> - (2 ^ 63)"
    using that by (rule triangle_area_1_swap_sign)
  show "inside_triangle_1 v a b c = inside_triangle_1 v a c b"
    if "triangle_area_1 v a b \<noteq> - (2 ^ 63) \<and> triangle_area_1 v b c \<noteq> - (2 ^ 63) \<and>
      triangle_area_1 v c a \<noteq> - (2 ^ 63)"
    using that by (intro inside_triangle_1_swap) simp_all
qed

theorem triangle_area_permutations_witness:
  "triangle_area_1 tri_a tri_b tri_c \<noteq> - (2 ^ 63) \<and>
   triangle_area_1 tri_inner tri_a tri_b \<noteq> - (2 ^ 63) \<and>
   triangle_area_1 tri_inner tri_b tri_c \<noteq> - (2 ^ 63) \<and>
   triangle_area_1 tri_inner tri_c tri_a \<noteq> - (2 ^ 63) \<and>
   0 <s triangle_area_1 tri_a tri_b tri_c \<and> triangle_area_1 tri_a tri_c tri_b <s 0 \<and>
   inside_triangle_1 tri_inner tri_a tri_b tri_c \<and>
   inside_triangle_1 tri_inner tri_a tri_c tri_b \<and>
   inside_triangle tri_inner tri_a tri_b tri_c \<and>
   inside_triangle tri_inner tri_a tri_c tri_b \<and>
   inside_triangle tri_inner tri_b tri_c tri_a"
proof -
  have h: "triangle_area_1 tri_a tri_b tri_c \<noteq> - (2 ^ 63)"
    "triangle_area_1 tri_inner tri_a tri_b \<noteq> - (2 ^ 63)"
    "triangle_area_1 tri_inner tri_b tri_c \<noteq> - (2 ^ 63)"
    "triangle_area_1 tri_inner tri_c tri_a \<noteq> - (2 ^ 63)"
    by code_simp+
  have p: "0 <s triangle_area_1 tri_a tri_b tri_c" by code_simp
  have i: "inside_triangle_1 tri_inner tri_a tri_b tri_c"
    "inside_triangle tri_inner tri_a tri_b tri_c"
    by code_simp+
  note t = triangle_area_permutations
    [where a = tri_a and b = tri_b and c = tri_c and v = tri_inner]
  from t h(1) have s: "(triangle_area_1 tri_a tri_c tri_b <s 0) = (0 <s triangle_area_1 tri_a tri_b tri_c)"
    by blast
  from t h(2-4) have q: "inside_triangle_1 tri_inner tri_a tri_b tri_c =
      inside_triangle_1 tri_inner tri_a tri_c tri_b"
    by blast
  from t have r: "inside_triangle tri_inner tri_a tri_b tri_c =
      inside_triangle tri_inner tri_a tri_c tri_b"
    "inside_triangle tri_inner tri_a tri_b tri_c = inside_triangle tri_inner tri_b tri_c tri_a"
    by blast+
  from h p i s q r show ?thesis by blast
qed

text \<open>
  The claim as written, for all points, fails for the area without the snap where the
  arithmetic wraps. The area of \<open>(0, 0) (2\<^sup>3\<^sup>2, 0) (0, - 2\<^sup>3\<^sup>1)\<close> is \<open>- 2\<^sup>6\<^sup>3\<close>, and so is the area
  of the swapped triangle: the sign does not turn. The origin is reported inside the
  triangle with the third corner \<open>(- 1, 1)\<close> in one order of the corners and not in the other.
\<close>

theorem inside_triangle_1_swap_overflow:
  "triangle_area_1 tri_a wide_a wide_b = - (2 ^ 63) \<and>
   triangle_area_1 tri_a wide_b wide_a = - (2 ^ 63) \<and>
   triangle_area_1 tri_a wide_a wide_b <s 0 \<and> triangle_area_1 tri_a wide_b wide_a <s 0 \<and>
   inside_triangle_1 tri_a wide_a wide_b wide_c \<and>
   \<not> inside_triangle_1 tri_a wide_a wide_c wide_b"
  by code_simp

section \<open>The integrated area is the shoelace sum\<close>

lemma integrate_loop_sum:
  "integrate_loop b (p # ps) tot =
   tot + sum_list (map (\<lambda>(p0, p1). (y (snd p0) + y (snd p1)) * (x (snd p1) - x (snd p0)))
                    (zip (p # ps) (ps @ [b])))"
  by (induction ps arbitrary: p tot) (simp_all add: algebra_simps)

lemma integrate_loop_trapezoid:
  "ps \<noteq> [] \<Longrightarrow> integrate_loop (hd ps) ps 0 = trapezoid_sum ps"
  by (cases ps)
    (simp_all add: integrate_loop_sum trapezoid_sum_def edges_def del: integrate_loop.simps)

lemma sum_list_zip_diff:
  fixes g :: "'a \<Rightarrow> Num"
  shows "length xs = length ys \<Longrightarrow>
    sum_list (map (\<lambda>(a, b). g b - g a) (zip xs ys)) = sum_list (map g ys) - sum_list (map g xs)"
  by (induction xs ys rule: list_induct2) (simp_all add: algebra_simps)

lemma sum_list_map_rotate1:
  fixes g :: "'a \<Rightarrow> Num"
  shows "sum_list (map g (rotate1 xs)) = sum_list (map g xs)"
  by (cases xs) (simp_all add: algebra_simps)

lemma trapezoid_shoelace: "trapezoid_sum ps + shoelace ps = 0"
proof -
  let ?g = "\<lambda>p :: PointPtr. x (snd p) * y (snd p)"
  have "trapezoid_sum ps + shoelace ps =
        sum_list (map (\<lambda>(p0, p1). ?g p1 - ?g p0) (edges ps))"
    unfolding trapezoid_sum_def shoelace_def sum_list_addf [symmetric]
    by (rule arg_cong [where f = sum_list], rule map_cong) (auto simp: algebra_simps)
  also have "\<dots> = sum_list (map ?g (rotate1 ps)) - sum_list (map ?g ps)"
    unfolding edges_def by (rule sum_list_zip_diff) simp
  also have "\<dots> = 0" by (simp only: sum_list_map_rotate1) simp
  finally show ?thesis .
qed

text \<open>
  The member function \<^verbatim>\<open>EarClipper::integrate_polygon\<close> and the lambda of \<^verbatim>\<open>main\<close>, which
  step with the circular \<^verbatim>\<open>next\<close>: for a point sequence of at least 3 nodes,
  \<^const>\<open>integrate_polygon\<close> adds \<open>(p0.y + p1.y) * (p1.x - p0.x)\<close> over every circularly
  consecutive pair and negates the total, and the value it returns is the shoelace sum of
  \<open>x\<^sub>i * y\<^sub>i\<^sub>+\<^sub>1 - x\<^sub>i\<^sub>+\<^sub>1 * y\<^sub>i\<close> over the same pairs (twice the signed area, positive for a
  counter-clockwise polygon such as the triangle of the witness).
\<close>

theorem integrate_polygon_shoelace:
  assumes "length ps \<ge> 3"
  shows "integrate_polygon ps = - trapezoid_sum ps \<and> integrate_polygon ps = shoelace ps"
proof -
  from assms have ne: "ps \<noteq> []" by auto
  have 1: "integrate_polygon ps = - trapezoid_sum ps"
    using assms by (simp add: integrate_polygon_def integrate_loop_trapezoid [OF ne])
  have "- trapezoid_sum ps = shoelace ps"
    using trapezoid_shoelace [of ps] by (simp add: neg_eq_iff_add_eq_0)
  with 1 show ?thesis by simp
qed

theorem integrate_polygon_shoelace_witness:
  "length ccw_triangle \<ge> 3 \<and> integrate_polygon ccw_triangle = 12 * scale * scale \<and>
   shoelace ccw_triangle = 12 * scale * scale \<and> 0 <s integrate_polygon ccw_triangle"
proof -
  have l: "length ccw_triangle \<ge> 3" by (simp add: ccw_triangle_def)
  have v: "shoelace ccw_triangle = 12 * scale * scale"
    by (simp add: shoelace_def edges_def ccw_triangle_def scale_def)
  have i: "integrate_polygon ccw_triangle = 12 * scale * scale"
    using integrate_polygon_shoelace [OF l, THEN conjunct2] v by (rule trans)
  have "0 <s (12 * scale * scale :: Num)" by (simp add: scale_def word_sless_alt)
  with i l v show ?thesis by simp
qed

section \<open>Point in triangle\<close>

subsection \<open>Barycentric weights and orientation signs\<close>

lemma det_sum:
  "det vx vy ax ay bx by + det vx vy bx by cx cy + det vx vy cx cy ax ay =
   det ax ay bx by cx cy"
  by (simp add: det_def algebra_simps)

lemma det_cramer_x:
  "det ax ay bx by cx cy * vx =
   det vx vy bx by cx cy * ax + det vx vy cx cy ax ay * bx + det vx vy ax ay bx by * cx"
  by (simp add: det_def algebra_simps)

lemma det_cramer_y:
  "det ax ay bx by cx cy * vy =
   det vx vy bx by cx cy * ay + det vx vy cx cy ax ay * by + det vx vy ax ay bx by * cy"
  by (simp add: det_def algebra_simps)

lemma det_bary:
  assumes "\<alpha> + \<beta> + \<gamma> = 1"
    and "vx = \<alpha> * ax + \<beta> * bx + \<gamma> * cx" and "vy = \<alpha> * ay + \<beta> * by + \<gamma> * cy"
  shows "det vx vy bx by cx cy = \<alpha> * det ax ay bx by cx cy"
    and "det vx vy cx cy ax ay = \<beta> * det ax ay bx by cx cy"
    and "det vx vy ax ay bx by = \<gamma> * det ax ay bx by cx cy"
proof -
  have g: "\<gamma> = 1 - \<alpha> - \<beta>" using assms(1) by simp
  show "det vx vy bx by cx cy = \<alpha> * det ax ay bx by cx cy"
    unfolding assms(2,3) g det_def by (simp add: algebra_simps)
  show "det vx vy cx cy ax ay = \<beta> * det ax ay bx by cx cy"
    unfolding assms(2,3) g det_def by (simp add: algebra_simps)
  show "det vx vy ax ay bx by = \<gamma> * det ax ay bx by cx cy"
    unfolding assms(2,3) g det_def by (simp add: algebra_simps)
qed

lemma bary_iff:
  "(det ax ay bx by cx cy \<noteq> 0 \<and>
    (\<exists>\<alpha> \<beta> \<gamma>. 0 < \<alpha> \<and> 0 < \<beta> \<and> 0 < \<gamma> \<and> \<alpha> + \<beta> + \<gamma> = 1 \<and>
        vx = \<alpha> * ax + \<beta> * bx + \<gamma> * cx \<and> vy = \<alpha> * ay + \<beta> * by + \<gamma> * cy)) \<longleftrightarrow>
   (0 < det vx vy ax ay bx by \<and> 0 < det vx vy bx by cx cy \<and> 0 < det vx vy cx cy ax ay) \<or>
   (det vx vy ax ay bx by < 0 \<and> det vx vy bx by cx cy < 0 \<and> det vx vy cx cy ax ay < 0)"
  (is "?L \<longleftrightarrow> ?R")
proof
  assume ?L
  then obtain \<alpha> \<beta> \<gamma> where D: "det ax ay bx by cx cy \<noteq> 0"
    and p: "0 < \<alpha>" "0 < \<beta>" "0 < \<gamma>" and s: "\<alpha> + \<beta> + \<gamma> = 1"
    and v: "vx = \<alpha> * ax + \<beta> * bx + \<gamma> * cx" "vy = \<alpha> * ay + \<beta> * by + \<gamma> * cy"
    by blast
  note b = det_bary [OF s v]
  show ?R
  proof (cases "0 < det ax ay bx by cx cy")
    case True
    then show ?thesis using p by (simp add: b)
  next
    case False
    with D have "det ax ay bx by cx cy < 0" by simp
    then show ?thesis using p by (simp add: b mult_pos_neg)
  qed
next
  assume R: ?R
  let ?D = "det ax ay bx by cx cy"
  let ?a = "det vx vy bx by cx cy" and ?b = "det vx vy cx cy ax ay"
    and ?c = "det vx vy ax ay bx by"
  have sum: "?c + ?a + ?b = ?D" by (rule det_sum)
  from R sum have D: "?D \<noteq> 0" by linarith
  from R sum have pos: "0 < ?a / ?D" "0 < ?b / ?D" "0 < ?c / ?D"
    by (auto simp: zero_less_divide_iff)
  have one: "?a / ?D + ?b / ?D + ?c / ?D = 1"
    using D sum by (simp add: add_divide_distrib [symmetric] add.commute add.left_commute)
  have vx: "vx = ?a / ?D * ax + ?b / ?D * bx + ?c / ?D * cx"
    using D det_cramer_x [of ax ay bx "by" cx cy vx vy] by (simp add: field_simps)
  have vy: "vy = ?a / ?D * ay + ?b / ?D * by + ?c / ?D * cy"
    using D det_cramer_y [of ax ay bx "by" cx cy vy vx] by (simp add: field_simps)
  from D pos one vx vy show ?L by blast
qed

lemma orient_det: "real_of_int (orient a b c) = det (X a) (Y a) (X b) (Y b) (X c) (Y c)"
  by (simp add: orient_def det_def)

lemma strictly_inside_orient:
  "strictly_inside v a b c \<longleftrightarrow>
     (0 < orient v a b \<and> 0 < orient v b c \<and> 0 < orient v c a) \<or>
     (orient v a b < 0 \<and> orient v b c < 0 \<and> orient v c a < 0)"
proof -
  have "strictly_inside v a b c \<longleftrightarrow>
     (det (X a) (Y a) (X b) (Y b) (X c) (Y c) \<noteq> 0 \<and>
      (\<exists>(\<alpha>::real) (\<beta>::real) (\<gamma>::real). 0 < \<alpha> \<and> 0 < \<beta> \<and> 0 < \<gamma> \<and> \<alpha> + \<beta> + \<gamma> = 1 \<and>
        real_of_int (X v) = \<alpha> * X a + \<beta> * X b + \<gamma> * X c \<and>
        real_of_int (Y v) = \<alpha> * Y a + \<beta> * Y b + \<gamma> * Y c))"
    unfolding strictly_inside_def orient_det [symmetric] by simp
  also have "\<dots> \<longleftrightarrow>
     (0 < real_of_int (orient v a b) \<and> 0 < real_of_int (orient v b c) \<and>
      0 < real_of_int (orient v c a)) \<or>
     (real_of_int (orient v a b) < 0 \<and> real_of_int (orient v b c) < 0 \<and>
      real_of_int (orient v c a) < 0)"
    unfolding orient_det by (rule bary_iff)
  finally show ?thesis by simp
qed

subsection \<open>The computed areas inside the range\<close>

lemma sint_diff_small:
  fixes a b :: Num
  assumes "- (2 ^ 30) < sint a" "sint a < 2 ^ 30" "- (2 ^ 30) < sint b" "sint b < 2 ^ 30"
  shows "sint (a - b) = sint a - sint b"
  using assms by (simp add: sint_word_ariths signed_take_bit_int_eq_self)

lemma prod_bound:
  fixes p q :: int
  assumes "\<bar>p\<bar> < 2 ^ 31" "\<bar>q\<bar> < 2 ^ 31"
  shows "\<bar>p * q\<bar> < 2 ^ 62"
proof -
  have "\<bar>p * q\<bar> = \<bar>p\<bar> * \<bar>q\<bar>" by (simp add: abs_mult)
  also have "\<dots> < 2 ^ 31 * 2 ^ 31"
    using assms by (intro mult_strict_mono') auto
  finally show ?thesis by simp
qed

lemma sint_mult_small:
  fixes a b :: Num
  assumes "\<bar>sint a\<bar> < 2 ^ 31" "\<bar>sint b\<bar> < 2 ^ 31"
  shows "sint (a * b) = sint a * sint b"
proof -
  have "\<bar>sint a * sint b\<bar> < 2 ^ 62" using assms by (rule prod_bound)
  then show ?thesis
    by (simp add: sint_word_ariths signed_take_bit_int_eq_self abs_less_iff)
qed

lemma sint_diff_62:
  fixes p q :: Num
  assumes "\<bar>sint p\<bar> < 2 ^ 62" "\<bar>sint q\<bar> < 2 ^ 62"
  shows "sint (p - q) = sint p - sint q"
  using assms by (simp add: sint_word_ariths signed_take_bit_int_eq_self abs_less_iff)

lemma orient_bound:
  assumes "in_range a" "in_range b" "in_range c"
  shows "\<bar>orient a b c\<bar> < 2 ^ 63"
proof -
  have b: "\<bar>X b - X a\<bar> < 2 ^ 31" "\<bar>Y c - Y a\<bar> < 2 ^ 31"
      "\<bar>Y b - Y a\<bar> < 2 ^ 31" "\<bar>X c - X a\<bar> < 2 ^ 31"
    using assms by (auto simp: in_range_def)
  have "\<bar>(X b - X a) * (Y c - Y a)\<bar> < 2 ^ 62" "\<bar>(Y b - Y a) * (X c - X a)\<bar> < 2 ^ 62"
    by (rule prod_bound; fact)+
  then show ?thesis by (simp add: orient_def abs_less_iff)
qed

lemma sint_cross_product:
  assumes "in_range a" "in_range b" "in_range c"
  shows "sint (cross_product (minus_Point b a) (minus_Point c a)) = orient a b c"
proof -
  have d: "sint (x a - x b) = X a - X b" "sint (y a - y b) = Y a - Y b"
          "sint (x a - x c) = X a - X c" "sint (y a - y c) = Y a - Y c"
    using assms by (simp_all add: in_range_def X_def Y_def sint_diff_small)
  have b: "\<bar>X a - X b\<bar> < 2 ^ 31" "\<bar>Y a - Y b\<bar> < 2 ^ 31"
          "\<bar>X a - X c\<bar> < 2 ^ 31" "\<bar>Y a - Y c\<bar> < 2 ^ 31"
    using assms by (auto simp: in_range_def)
  have m1: "sint ((x a - x b) * (y a - y c)) = (X a - X b) * (Y a - Y c)"
    using b d by (simp add: sint_mult_small)
  have m2: "sint ((y a - y b) * (x a - x c)) = (Y a - Y b) * (X a - X c)"
    using b d by (simp add: sint_mult_small)
  have p1: "\<bar>(X a - X b) * (Y a - Y c)\<bar> < 2 ^ 62" using b by (intro prod_bound)
  have p2: "\<bar>(Y a - Y b) * (X a - X c)\<bar> < 2 ^ 62" using b by (intro prod_bound)
  have "sint ((x a - x b) * (y a - y c) - (y a - y b) * (x a - x c)) =
        sint ((x a - x b) * (y a - y c)) - sint ((y a - y b) * (x a - x c))"
    by (rule sint_diff_62) (simp_all only: m1 m2 p1 p2)
  then have "sint ((x a - x b) * (y a - y c) - (y a - y b) * (x a - x c)) =
        (X a - X b) * (Y a - Y c) - (Y a - Y b) * (X a - X c)"
    by (simp only: m1 m2)
  then show ?thesis
    by (simp add: cross_product_def minus_Point_def orient_def algebra_simps)
qed

lemma sint_triangle_area:
  assumes "in_range a" "in_range b" "in_range c" and "exact_snap a b c"
  shows "sint (triangle_area a b c) = orient a b c"
  using sint_cross_product [OF assms(1-3)] assms(4) by (simp add: exact_snap_def)


lemmas tri_defs = tri_a_def tri_b_def tri_c_def tri_inner_def tri_on_edge_def scale_def



text \<open>
  Inside the range the snap can still change an area that is not zero, because it looks at
  the low 32 bits only: the area of the origin with \<open>(65536, - 1)\<close> and \<open>(65536, 65535)\<close> is
  \<open>2\<^sup>3\<^sup>2\<close> and becomes \<open>0\<close>, and the origin, strictly inside the triangle these two points form
  with \<open>(- 65536, 0)\<close>, is reported as not inside. A point reported as inside is inside.
\<close>

lemma inside_triangle_truncated_area:
  "in_range tri_a \<and> in_range low_a \<and> in_range low_b \<and> in_range low_c \<and>
   strictly_inside tri_a low_a low_b low_c \<and>
   cross_product (minus_Point low_a tri_a) (minus_Point low_b tri_a) = 2 ^ 32 \<and>
   triangle_area tri_a low_a low_b = 0 \<and>
   \<not> exact_snap tri_a low_a low_b \<and>
   \<not> inside_triangle tri_a low_a low_b low_c"
proof -
  have "in_range tri_a \<and> in_range low_a \<and> in_range low_b \<and> in_range low_c"
    by (simp add: in_range_def X_def Y_def tri_defs low_a_def low_b_def low_c_def)
  moreover have "strictly_inside tri_a low_a low_b low_c"
    by (simp add: strictly_inside_orient orient_def X_def Y_def tri_defs
          low_a_def low_b_def low_c_def)
  moreover have "cross_product (minus_Point low_a tri_a) (minus_Point low_b tri_a) = 2 ^ 32 \<and>
    triangle_area tri_a low_a low_b = 0 \<and> \<not> exact_snap tri_a low_a low_b \<and>
    \<not> inside_triangle tri_a low_a low_b low_c"
    by code_simp
  ultimately show ?thesis by simp
qed

lemma exact_snap_nonzero: "triangle_area a b c \<noteq> 0 \<Longrightarrow> exact_snap a b c"
  by (simp add: exact_snap_def triangle_area_def Let_def split: if_splits)

lemma inside_triangle_sound:
  assumes "in_range v" "in_range a" "in_range b" "in_range c"
    and "inside_triangle v a b c"
  shows "strictly_inside v a b c"
proof -
  from assms(5) have "triangle_area v a b \<noteq> 0" "triangle_area v b c \<noteq> 0"
    "triangle_area v c a \<noteq> 0"
    by (auto simp: inside_triangle_signs)
  then have "exact_snap v a b" "exact_snap v b c" "exact_snap v c a"
    by (simp_all add: exact_snap_nonzero)
  then have "sint (triangle_area v a b) = orient v a b"
    "sint (triangle_area v b c) = orient v b c" "sint (triangle_area v c a) = orient v c a"
    using assms(1-4) by (simp_all add: sint_triangle_area)
  with assms(5) show ?thesis
    by (simp add: inside_triangle_signs strictly_inside_orient word_sless_alt)
qed

section \<open>Circular traversal of the polygon store\<close>

lemma next_split:
  assumes "distinct (as @ p # bs)"
  shows "next (as @ p # bs) p = hd (bs @ as @ [p])"
proof -
  have "p \<notin> set as" using assms by auto
  then have "dropWhile (\<lambda>q. q \<noteq> p) (as @ p # bs) = p # bs"
    by (subst dropWhile_append3) (auto simp: dropWhile_eq_Nil_conv)
  then show ?thesis
    by (cases as; cases bs) (simp_all add: next_def)
qed

lemma prev_split:
  assumes "distinct (as @ p # bs)"
  shows "prev (as @ p # bs) p = last (p # bs @ as)"
proof -
  have n: "p \<notin> set as" using assms by auto
  then have t: "takeWhile (\<lambda>q. q \<noteq> p) (as @ p # bs) = as"
    by (subst takeWhile_append2) auto
  show ?thesis
  proof (cases as)
    case Nil
    then show ?thesis by (simp add: prev_def)
  next
    case (Cons a as')
    with n have "p \<noteq> hd (as @ p # bs)" by auto
    then show ?thesis using t Cons by (simp add: prev_def)
  qed
qed

lemma neighbours_in_set:
  assumes d: "distinct ps" and p: "p \<in> set ps"
  shows "prev ps p \<in> set ps" and "next ps p \<in> set ps"
proof -
  from p obtain as bs where s: "ps = as @ p # bs" by (auto simp: in_set_conv_decomp)
  have d': "distinct (as @ p # bs)" using d s by simp
  have "last (p # bs @ as) \<in> set (p # bs @ as)" by (rule last_in_set) simp
  then show "prev ps p \<in> set ps" unfolding s prev_split [OF d'] by auto
  have "hd (bs @ as @ [p]) \<in> set (bs @ as @ [p])" by (rule hd_in_set) simp
  then show "next ps p \<in> set ps" unfolding s next_split [OF d'] by auto
qed

lemma neighbours_distinct:
  assumes d: "distinct ps" and p: "p \<in> set ps" and l: "length ps \<ge> 3"
  shows "prev ps p \<noteq> p" and "next ps p \<noteq> p" and "prev ps p \<noteq> next ps p"
proof -
  from p obtain as bs where s: "ps = as @ p # bs" by (auto simp: in_set_conv_decomp)
  have d': "distinct (as @ p # bs)" using d s by simp
  have l': "length (bs @ as) \<ge> 2" using l s by simp
  define cs where "cs = bs @ as"
  have dc: "distinct cs" "p \<notin> set cs" using d' by (auto simp: cs_def)
  have lc: "length cs \<ge> 2" using l' by (simp add: cs_def)
  then have ne: "cs \<noteq> []" by auto
  have pr: "prev ps p = last cs" unfolding s prev_split [OF d'] using ne by (auto simp: cs_def)
  have "hd ((bs @ as) @ [p]) = hd (bs @ as)" using ne unfolding cs_def by (rule hd_append2)
  then have nx: "next ps p = hd cs" unfolding s next_split [OF d'] by (simp add: cs_def)
  show "prev ps p \<noteq> p" using dc ne unfolding pr by (metis last_in_set)
  show "next ps p \<noteq> p" using dc ne unfolding nx by (metis hd_in_set)
  show "prev ps p \<noteq> next ps p"
  proof -
    from lc obtain c cs' where c: "cs = c # cs'" "cs' \<noteq> []"
      by (cases cs) (auto simp: Suc_le_eq)
    then have "last cs \<in> set cs'" by simp
    moreover have "hd cs \<notin> set cs'" using dc c by simp
    ultimately show ?thesis unfolding pr nx by auto
  qed
qed

section \<open>The two sets after construction\<close>

lemma check_convex_cong:
  "points s = points t \<Longrightarrow> area_from_integral s = area_from_integral t \<Longrightarrow>
   check_convex s p = check_convex t p"
  by (simp add: check_convex_def)

lemma check_ear_cong:
  "points s = points t \<Longrightarrow> concav_points s = concav_points t \<Longrightarrow>
   check_ear s p = check_ear t p"
  by (simp add: check_ear_def)

lemma classify_fields:
  "points (classify p s) = points s"
  "area_from_integral (classify p s) = area_from_integral s"
  "area_from_triangulation (classify p s) = area_from_triangulation s"
  "cout (classify p s) = cout s"
  by (simp_all add: classify_def)

lemma fold_classify_fields:
  "points (fold classify qs s) = points s"
  "area_from_integral (fold classify qs s) = area_from_integral s"
  "area_from_triangulation (fold classify qs s) = area_from_triangulation s"
  "cout (fold classify qs s) = cout s"
  by (induction qs arbitrary: s) (simp_all add: classify_fields)

lemma classify_convex: "check_convex (classify q s) p = check_convex s p"
  by (rule check_convex_cong) (simp_all add: classify_fields)

lemma fold_classify_sets:
  "set (eartip_points (fold classify qs s)) =
     set (eartip_points s) \<union> {q \<in> set qs. check_convex s q}"
  "set (concav_points (fold classify qs s)) =
     set (concav_points s) \<union> {q \<in> set qs. \<not> check_convex s q}"
proof (induction qs arbitrary: s)
  case Nil
  { case 1 show ?case by simp }
  { case 2 show ?case by simp }
next
  case (Cons q qs)
  { case 1 show ?case
      by (simp add: Cons.IH classify_convex) (auto simp: classify_def) }
  { case 2 show ?case
      by (simp add: Cons.IH classify_convex) (auto simp: classify_def) }
qed

lemma classify_distinct:
  "distinct (eartip_points s) \<Longrightarrow> distinct (eartip_points (classify q s))"
  "distinct (concav_points s) \<Longrightarrow> distinct (concav_points (classify q s))"
  by (simp_all add: classify_def)

lemma fold_classify_distinct:
  "distinct (eartip_points s) \<Longrightarrow> distinct (eartip_points (fold classify qs s))"
  "distinct (concav_points s) \<Longrightarrow> distinct (concav_points (fold classify qs s))"
  by (induction qs arbitrary: s) (simp_all add: classify_distinct)

lemma find_concave_and_eartips_fields:
  "points (find_concave_and_eartips s) = points s"
  "area_from_integral (find_concave_and_eartips s) = area_from_integral s"
  "area_from_triangulation (find_concave_and_eartips s) = area_from_triangulation s"
  "cout (find_concave_and_eartips s) = cout s"
  "concav_points (find_concave_and_eartips s) = concav_points (fold classify (points s) s)"
  by (simp_all add: find_concave_and_eartips_def Let_def fold_classify_fields)

lemma find_concave_and_eartips_sets:
  assumes "eartip_points s = []" "concav_points s = []"
  defines "s' \<equiv> find_concave_and_eartips s"
  shows "set (eartip_points s') = {v \<in> set (points s'). check_convex s' v \<and> check_ear s' v}"
    and "set (concav_points s') = {v \<in> set (points s'). \<not> check_convex s' v}"
    and "distinct (eartip_points s')" and "distinct (concav_points s')"
proof -
  let ?s1 = "fold classify (points s) s"
  have cc: "check_convex s' v = check_convex s v" for v
    unfolding s'_def by (rule check_convex_cong) (simp_all add: find_concave_and_eartips_fields)
  have ce: "check_ear s' v = check_ear ?s1 v" for v
    unfolding s'_def
    by (rule check_ear_cong) (simp_all add: find_concave_and_eartips_fields fold_classify_fields)
  have p: "points s' = points s" by (simp add: s'_def find_concave_and_eartips_fields)
  show "set (eartip_points s') = {v \<in> set (points s'). check_convex s' v \<and> check_ear s' v}"
    unfolding cc ce p using assms(1)
    by (auto simp: s'_def find_concave_and_eartips_def Let_def fold_classify_sets)
  show "set (concav_points s') = {v \<in> set (points s'). \<not> check_convex s' v}"
    unfolding cc p using assms(2)
    by (auto simp: s'_def find_concave_and_eartips_fields fold_classify_sets)
  show "distinct (eartip_points s')"
    using assms(1) by (simp add: s'_def find_concave_and_eartips_def Let_def fold_classify_distinct)
  show "distinct (concav_points s')"
    using assms(2) by (simp add: s'_def find_concave_and_eartips_fields fold_classify_distinct)
qed

lemma EarClipper_new_points:
  assumes "EarClipper_new pts = Inr s"
  shows "distinct (points s)" and "length (points s) \<ge> 3"
    and "cout s = []" and "area_from_triangulation s = 0"
    and "area_from_integral s = integrate_polygon (points s)"
    and "points s = enumerate 0 pts \<or> points s = butlast (enumerate 0 pts)"
  using assms
  by (auto simp: EarClipper_new_def Let_def find_concave_and_eartips_fields distinct_butlast
        split: if_splits intro: distinct_butlast)

section \<open>Re-examining a neighbour\<close>

lemma triangle_area_corner:
  "triangle_area a a b = 0" "triangle_area a b a = 0" "triangle_area b a a = 0"
  by (simp_all add: triangle_area_snap snap_iff cross_product_def minus_Point_def)

lemma inside_triangle_corner:
  "\<not> inside_triangle a a b c" "\<not> inside_triangle b a b c" "\<not> inside_triangle c a b c"
  by (simp_all add: inside_triangle_def Let_def triangle_area_corner)

lemma next_remove1:
  assumes d: "distinct ps" and p: "p \<in> set ps" and l: "length ps \<ge> 3"
  shows "next (remove1 p ps) (prev ps p) = next ps p"
    and "prev (remove1 p ps) (next ps p) = prev ps p"
proof -
  from p obtain as bs where s: "ps = as @ p # bs" by (auto simp: in_set_conv_decomp)
  have d': "distinct (as @ p # bs)" using d s by simp
  have r: "remove1 p ps = as @ bs" using d' by (simp add: s remove1_append)
  define cs where "cs = bs @ as"
  have ne: "cs \<noteq> []" using l s by (auto simp: cs_def)
  have "hd ((bs @ as) @ [p]) = hd (bs @ as)" using ne unfolding cs_def by (rule hd_append2)
  then have nx: "next ps p = hd cs" unfolding s next_split [OF d'] by (simp add: cs_def)
  have pr: "prev ps p = last cs" unfolding s prev_split [OF d'] using ne by (auto simp: cs_def)
  show "next (remove1 p ps) (prev ps p) = next ps p"
  proof (cases as rule: rev_cases)
    case Nil
    then obtain bs' b where b: "bs = bs' @ [b]" using ne by (cases bs rule: rev_cases) (auto simp: cs_def)
    have "distinct (bs' @ b # [])" using d' b by simp
    from next_split [OF this] show ?thesis unfolding r pr nx cs_def Nil b by simp
  next
    case (snoc as' a)
    have "distinct (as' @ a # bs)" using d' snoc by simp
    from next_split [OF this] show ?thesis unfolding r pr nx cs_def snoc by simp
  qed
  show "prev (remove1 p ps) (next ps p) = prev ps p"
  proof (cases bs)
    case Nil
    then obtain a as' where a: "as = a # as'" using ne by (cases as) (auto simp: cs_def)
    have "distinct ([] @ a # as')" using d' a by simp
    from prev_split [OF this] show ?thesis unfolding r pr nx cs_def Nil a by simp
  next
    case (Cons b bs')
    have "distinct (as @ b # bs')" using d' Cons by simp
    from prev_split [OF this] show ?thesis unfolding r pr nx cs_def Cons by simp
  qed
qed

lemma update_neighbour_fields:
  "points (update_neighbour p s) = points s"
  "area_from_integral (update_neighbour p s) = area_from_integral s"
  "area_from_triangulation (update_neighbour p s) = area_from_triangulation s"
  "cout (update_neighbour p s) = cout s"
  by (simp_all add: update_neighbour_def Let_def)

lemma update_neighbour_convex: "check_convex (update_neighbour q s) p = check_convex s p"
  by (rule check_convex_cong) (simp_all add: update_neighbour_fields)

lemma update_neighbour_not_convex: "\<not> check_convex s p \<Longrightarrow> update_neighbour p s = s"
  by (simp add: update_neighbour_def)

lemma update_neighbour_sets:
  assumes "check_convex s p"
  shows "set (concav_points (update_neighbour p s)) = set (concav_points s) - {p}"
    and "set (eartip_points (update_neighbour p s)) =
         (if check_ear (s\<lparr>concav_points := removeAll p (concav_points s)\<rparr>) p
          then insert p (set (eartip_points s)) else set (eartip_points s) - {p})"
  using assms by (simp_all add: update_neighbour_def Let_def)

lemma update_neighbour_distinct:
  "distinct (eartip_points s) \<Longrightarrow> distinct (eartip_points (update_neighbour p s))"
  "distinct (concav_points s) \<Longrightarrow> distinct (concav_points (update_neighbour p s))"
  by (simp_all add: update_neighbour_def Let_def distinct_removeAll)

lemma update_neighbour_wf:
  assumes "wf s" "p \<in> set (points s)"
  shows "wf (update_neighbour p s)"
proof (cases "check_convex s p")
  case True
  show ?thesis
    unfolding wf_def update_neighbour_fields update_neighbour_sets [OF True]
    using assms update_neighbour_distinct [of s p]
    by (auto simp: wf_def)
next
  case False
  then show ?thesis using assms by (simp add: update_neighbour_not_convex)
qed

section \<open>One iteration of the clipping loop\<close>

lemma erased_fields:
  "points (erased p1 s) = remove1 p1 (points s)"
  "eartip_points (erased p1 s) = removeAll p1 (eartip_points s)"
  "concav_points (erased p1 s) = concav_points s"
  "area_from_integral (erased p1 s) = area_from_integral s"
  by (simp_all add: erased_def Let_def)

lemma clip_erased:
  "clip p1 s =
     (if p1 \<notin> set (points s) then Inl Invalid_iterator
      else if \<not> (triangle_area (snd (prev (points s) p1)) (snd p1) (snd (next (points s) p1)) = 0
                 \<or> check_convex s p1)
      then Inl Assert_convex
      else Inr (update_neighbour (next (points s) p1)
                 (update_neighbour (prev (points s) p1) (erased p1 s))))"
  by (simp add: clip_def erased_def Let_def)

lemma clip_Inr:
  assumes "clip p1 s = Inr s'"
  shows "s' = update_neighbour (next (points s) p1)
                (update_neighbour (prev (points s) p1) (erased p1 s))"
    and "p1 \<in> set (points s)"
  using assms by (auto simp: clip_erased split: if_splits)

lemma erased_wf:
  assumes "wf s" "p1 \<in> set (eartip_points s)"
  shows "wf (erased p1 s)"
  using assms by (auto simp: wf_def erased_fields distinct_removeAll)

lemma clip_wf:
  assumes w: "wf s" and l: "length (points s) \<ge> 3" and e: "p1 \<in> set (eartip_points s)"
    and c: "clip p1 s = Inr s'"
  shows "wf s'"
proof -
  note r = clip_Inr [OF c]
  have d: "distinct (points s)" using w by (simp add: wf_def)
  have n: "prev (points s) p1 \<in> set (points s)" "next (points s) p1 \<in> set (points s)"
    using neighbours_in_set [OF d r(2)] .
  have m: "prev (points s) p1 \<noteq> p1" "next (points s) p1 \<noteq> p1"
    using neighbours_distinct [OF d r(2) l] by simp_all
  have 0: "prev (points s) p1 \<in> set (points (erased p1 s))"
    "next (points s) p1 \<in> set (points (erased p1 s))"
    using n m d by (simp_all add: erased_fields)
  have 1: "wf (update_neighbour (prev (points s) p1) (erased p1 s))"
    using erased_wf [OF w e] 0(1) by (rule update_neighbour_wf)
  show ?thesis unfolding r(1)
    by (rule update_neighbour_wf [OF 1]) (simp add: update_neighbour_fields 0)
qed

lemma EarClipper_new_wf:
  assumes "EarClipper_new pts = Inr s"
  shows "wf s"
proof -
  from assms obtain s0 where s: "s = find_concave_and_eartips s0"
    and e: "eartip_points s0 = []" "concav_points s0 = []"
    by (auto simp: EarClipper_new_def Let_def split: if_splits)
  note f = find_concave_and_eartips_sets [OF e]
  show ?thesis
    unfolding wf_def s f(1,2) using f(3,4) EarClipper_new_points(1) [OF assms]
    by (auto simp: s)
qed

lemma arising_wf: "arising s \<Longrightarrow> wf s"
  by (induction rule: arising.induct) (auto intro: EarClipper_new_wf clip_wf)

lemma update_neighbour_other:
  assumes "v \<noteq> p"
  shows "v \<in> set (eartip_points (update_neighbour p s)) \<longleftrightarrow> v \<in> set (eartip_points s)"
    and "v \<in> set (concav_points (update_neighbour p s)) \<longleftrightarrow> v \<in> set (concav_points s)"
  using assms by (auto simp: update_neighbour_def Let_def)

lemma list_all_removeAll: "P q \<Longrightarrow> list_all P (removeAll q xs) = list_all P xs"
  by (induction xs) auto

lemma check_ear_removeAll_corner:
  assumes "q = prev (points s) p \<or> q = p \<or> q = next (points s) p"
  shows "check_ear (s\<lparr>concav_points := removeAll q (concav_points s)\<rparr>) p = check_ear s p"
  using assms
  by (auto simp: check_ear_def Let_def list_all_removeAll inside_triangle_corner)

lemma update_neighbour_self:
  shows "check_convex s p \<Longrightarrow> p \<notin> set (concav_points (update_neighbour p s))"
    and "check_convex s p \<Longrightarrow>
           p \<in> set (eartip_points (update_neighbour p s)) \<longleftrightarrow>
           check_ear (update_neighbour p s) p"
proof -
  assume c: "check_convex s p"
  show "p \<notin> set (concav_points (update_neighbour p s))"
    by (simp add: update_neighbour_sets [OF c])
  have "check_ear (update_neighbour p s) p =
        check_ear (s\<lparr>concav_points := removeAll p (concav_points s)\<rparr>) p"
    using c by (intro check_ear_cong) (simp_all add: update_neighbour_def Let_def)
  then show "p \<in> set (eartip_points (update_neighbour p s)) \<longleftrightarrow>
        check_ear (update_neighbour p s) p"
    by (simp add: update_neighbour_sets [OF c])
qed

lemma update_neighbour_keeps_ear_test:
  assumes "q = prev (points s) p \<or> q = p \<or> q = next (points s) p"
  shows "check_ear (update_neighbour q s) p = check_ear s p"
proof (cases "check_convex s q")
  case True
  have "check_ear (update_neighbour q s) p =
        check_ear (s\<lparr>concav_points := removeAll q (concav_points s)\<rparr>) p"
    using True by (intro check_ear_cong) (simp_all add: update_neighbour_def Let_def)
  then show ?thesis using check_ear_removeAll_corner [OF assms] by simp
next
  case False
  then show ?thesis by (simp add: update_neighbour_not_convex)
qed

lemma clip_maintenance:
  assumes w: "wf s" and l: "length (points s) \<ge> 3" and e: "p1 \<in> set (eartip_points s)"
    and c: "clip p1 s = Inr s'"
  defines "p0 \<equiv> prev (points s) p1" and "p2 \<equiv> next (points s) p1"
  shows "p1 \<notin> set (eartip_points s')"
    and "v \<noteq> p0 \<Longrightarrow> v \<noteq> p1 \<Longrightarrow> v \<noteq> p2 \<Longrightarrow>
           (v \<in> set (eartip_points s') \<longleftrightarrow> v \<in> set (eartip_points s)) \<and>
           (v \<in> set (concav_points s') \<longleftrightarrow> v \<in> set (concav_points s))"
    and "p = p0 \<or> p = p2 \<Longrightarrow>
           (if check_convex s' p
            then p \<notin> set (concav_points s') \<and> (p \<in> set (eartip_points s') \<longleftrightarrow> check_ear s' p)
            else (p \<in> set (eartip_points s') \<longleftrightarrow> p \<in> set (eartip_points s)) \<and>
                 (p \<in> set (concav_points s') \<longleftrightarrow> p \<in> set (concav_points s)))"
proof -
  note r = clip_Inr [OF c]
  have d: "distinct (points s)" using w by (simp add: wf_def)
  have m: "p0 \<noteq> p1" "p2 \<noteq> p1" "p0 \<noteq> p2"
    using neighbours_distinct [OF d r(2) l] by (simp_all add: p0_def p2_def)
  define u where "u = update_neighbour p0 (erased p1 s)"
  have s': "s' = update_neighbour p2 u" using r(1) by (simp add: u_def p0_def p2_def)
  have pu: "points u = remove1 p1 (points s)"
    by (simp add: u_def update_neighbour_fields erased_fields)
  have nx: "next (points u) p0 = p2" and pv: "prev (points u) p2 = p0"
    unfolding pu p0_def p2_def using next_remove1 [OF d r(2) l] by simp_all
  show "p1 \<notin> set (eartip_points s')"
    using m by (simp add: s' u_def update_neighbour_other erased_fields)
  show "(v \<in> set (eartip_points s') \<longleftrightarrow> v \<in> set (eartip_points s)) \<and>
        (v \<in> set (concav_points s') \<longleftrightarrow> v \<in> set (concav_points s))"
    if "v \<noteq> p0" "v \<noteq> p1" "v \<noteq> p2"
    using that by (simp add: s' u_def update_neighbour_other erased_fields)
  have cv: "check_convex s' q = check_convex (erased p1 s) q" for q
    unfolding s' u_def by (simp add: update_neighbour_convex)
  have A: "if check_convex s' p0
      then p0 \<notin> set (concav_points s') \<and> (p0 \<in> set (eartip_points s') \<longleftrightarrow> check_ear s' p0)
      else (p0 \<in> set (eartip_points s') \<longleftrightarrow> p0 \<in> set (eartip_points s)) \<and>
           (p0 \<in> set (concav_points s') \<longleftrightarrow> p0 \<in> set (concav_points s))"
  proof (cases "check_convex s' p0")
    case True
    then have t: "check_convex (erased p1 s) p0" by (simp add: cv)
    have "check_ear s' p0 = check_ear u p0"
      unfolding s' by (rule update_neighbour_keeps_ear_test) (simp add: nx)
    with update_neighbour_self [OF t] True m show ?thesis
      by (simp add: s' update_neighbour_other u_def [symmetric])
  next
    case False
    then have "u = erased p1 s" by (simp add: cv u_def update_neighbour_not_convex)
    with False m show ?thesis
      by (simp add: s' update_neighbour_other erased_fields)
  qed
  have B: "if check_convex s' p2
      then p2 \<notin> set (concav_points s') \<and> (p2 \<in> set (eartip_points s') \<longleftrightarrow> check_ear s' p2)
      else (p2 \<in> set (eartip_points s') \<longleftrightarrow> p2 \<in> set (eartip_points s)) \<and>
           (p2 \<in> set (concav_points s') \<longleftrightarrow> p2 \<in> set (concav_points s))"
  proof (cases "check_convex s' p2")
    case True
    then have t: "check_convex u p2" by (simp add: s' update_neighbour_convex)
    with update_neighbour_self [OF t] True show ?thesis by (simp add: s')
  next
    case False
    then have "\<not> check_convex u p2" by (simp add: s' update_neighbour_convex)
    then have "s' = u" by (simp add: s' update_neighbour_not_convex)
    with False m show ?thesis
      by (simp add: u_def update_neighbour_other erased_fields)
  qed
  show "if check_convex s' p
      then p \<notin> set (concav_points s') \<and> (p \<in> set (eartip_points s') \<longleftrightarrow> check_ear s' p)
      else (p \<in> set (eartip_points s') \<longleftrightarrow> p \<in> set (eartip_points s)) \<and>
           (p \<in> set (concav_points s') \<longleftrightarrow> p \<in> set (concav_points s))"
    if "p = p0 \<or> p = p2"
    using that A B by auto
qed

section \<open>Maintenance of the ear-tip set and the concave set\<close>

text \<open>
  Claim C3, as the code has it. After construction the ear-tip set is exactly the set of
  remaining vertices that pass \<^const>\<open>check_convex\<close> and \<^const>\<open>check_ear\<close>, and the concave set exactly
  the set of remaining vertices that are not convex. An ear removal takes the removed
  vertex out of the ear-tip set and re-examines its two neighbours only: a neighbour that
  is convex afterwards is not in the concave set and is in the ear-tip set exactly when it
  passes \<^const>\<open>check_ear\<close>; a neighbour that is not convex afterwards keeps the memberships it
  had; no other vertex changes membership.
\<close>

theorem eartip_concav_maintenance:
  "(EarClipper_new pts = Inr s0 \<longrightarrow>
      set (eartip_points s0) = {v \<in> set (points s0). check_convex s0 v \<and> check_ear s0 v} \<and>
      set (concav_points s0) = {v \<in> set (points s0). \<not> check_convex s0 v}) \<and>
   (arising s \<and> length (points s) \<ge> 3 \<and> p1 \<in> set (eartip_points s) \<and> clip p1 s = Inr s' \<longrightarrow>
      p1 \<notin> set (eartip_points s') \<and>
      (\<forall>v. v \<noteq> prev (points s) p1 \<and> v \<noteq> p1 \<and> v \<noteq> next (points s) p1 \<longrightarrow>
           (v \<in> set (eartip_points s') \<longleftrightarrow> v \<in> set (eartip_points s)) \<and>
           (v \<in> set (concav_points s') \<longleftrightarrow> v \<in> set (concav_points s))) \<and>
      (\<forall>p. p = prev (points s) p1 \<or> p = next (points s) p1 \<longrightarrow>
           (if check_convex s' p
            then p \<notin> set (concav_points s') \<and>
                 (p \<in> set (eartip_points s') \<longleftrightarrow> check_ear s' p)
            else (p \<in> set (eartip_points s') \<longleftrightarrow> p \<in> set (eartip_points s)) \<and>
                 (p \<in> set (concav_points s') \<longleftrightarrow> p \<in> set (concav_points s)))))"
proof -
  have A: "set (eartip_points s0) = {v \<in> set (points s0). check_convex s0 v \<and> check_ear s0 v} \<and>
      set (concav_points s0) = {v \<in> set (points s0). \<not> check_convex s0 v}"
    if n: "EarClipper_new pts = Inr s0"
  proof -
    from n obtain t where s: "s0 = find_concave_and_eartips t"
      and e: "eartip_points t = []" "concav_points t = []"
      by (auto simp: EarClipper_new_def Let_def split: if_splits)
    show ?thesis
      unfolding s using find_concave_and_eartips_sets(1,2) [OF e] by (rule conjI)
  qed
  have B: "p1 \<notin> set (eartip_points s') \<and>
      (\<forall>v. v \<noteq> prev (points s) p1 \<and> v \<noteq> p1 \<and> v \<noteq> next (points s) p1 \<longrightarrow>
           (v \<in> set (eartip_points s') \<longleftrightarrow> v \<in> set (eartip_points s)) \<and>
           (v \<in> set (concav_points s') \<longleftrightarrow> v \<in> set (concav_points s))) \<and>
      (\<forall>p. p = prev (points s) p1 \<or> p = next (points s) p1 \<longrightarrow>
           (if check_convex s' p
            then p \<notin> set (concav_points s') \<and>
                 (p \<in> set (eartip_points s') \<longleftrightarrow> check_ear s' p)
            else (p \<in> set (eartip_points s') \<longleftrightarrow> p \<in> set (eartip_points s)) \<and>
                 (p \<in> set (concav_points s') \<longleftrightarrow> p \<in> set (concav_points s))))"
    if a: "arising s" "length (points s) \<ge> 3" "p1 \<in> set (eartip_points s)"
      "clip p1 s = Inr s'"
  proof -
    have w: "wf s" using a(1) by (rule arising_wf)
    note m = clip_maintenance [OF w a(2,3,4)]
    from m(1) m(2) m(3) show ?thesis by blast
  qed
  from A B show ?thesis by blast
qed

lemma square_new: "EarClipper_new square = Inr square0"
  by code_simp

lemma square_clip: "clip (3, scaled 0 4) square0 = Inr square1"
  by code_simp

theorem eartip_concav_maintenance_witness:
  "EarClipper_new square = Inr square0 \<and> arising square0 \<and>
   length (points square0) \<ge> 3 \<and> (3, scaled 0 4) \<in> set (eartip_points square0) \<and>
   clip (3, scaled 0 4) square0 = Inr square1 \<and>
   set (eartip_points square0) =
     {v \<in> set (points square0). check_convex square0 v \<and> check_ear square0 v} \<and>
   (3, scaled 0 4) \<notin> set (eartip_points square1) \<and>
   check_convex square1 (2, scaled 4 4) \<and>
   (2, scaled 4 4) \<notin> set (concav_points square1) \<and>
   ((2, scaled 4 4) \<in> set (eartip_points square1) \<longleftrightarrow> check_ear square1 (2, scaled 4 4)) \<and>
   ((1, scaled 4 0) \<in> set (eartip_points square1) \<longleftrightarrow>
    (1, scaled 4 0) \<in> set (eartip_points square0))"
proof -
  have a: "arising square0" using square_new by (rule arising.constructed)
  have l: "length (points square0) \<ge> 3" by (simp add: square0_def)
  have e: "(3, scaled 0 4) \<in> set (eartip_points square0)" by (simp add: square0_def)
  have p: "prev (points square0) (3, scaled 0 4) = (2, scaled 4 4)"
    "next (points square0) (3, scaled 0 4) = (0, scaled 0 0)" by code_simp+
  have c: "check_convex square1 (2, scaled 4 4)" by code_simp
  have n: "(1::nat, scaled 4 0) \<noteq> (2, scaled 4 4) \<and> (1::nat, scaled 4 0) \<noteq> (3, scaled 0 4) \<and>
           (1::nat, scaled 4 0) \<noteq> (0, scaled 0 0)" by simp
  from eartip_concav_maintenance
    [of square square0 square0 "(3, scaled 0 4)" square1] square_new square_clip a l e
  have m: "set (eartip_points square0) =
     {v \<in> set (points square0). check_convex square0 v \<and> check_ear square0 v}"
    "(3, scaled 0 4) \<notin> set (eartip_points square1)"
    "\<forall>v. v \<noteq> (2, scaled 4 4) \<and> v \<noteq> (3, scaled 0 4) \<and> v \<noteq> (0, scaled 0 0) \<longrightarrow>
           (v \<in> set (eartip_points square1) \<longleftrightarrow> v \<in> set (eartip_points square0)) \<and>
           (v \<in> set (concav_points square1) \<longleftrightarrow> v \<in> set (concav_points square0))"
    "\<forall>p. p = (2, scaled 4 4) \<or> p = (0, scaled 0 0) \<longrightarrow>
           (if check_convex square1 p
            then p \<notin> set (concav_points square1) \<and>
                 (p \<in> set (eartip_points square1) \<longleftrightarrow> check_ear square1 p)
            else (p \<in> set (eartip_points square1) \<longleftrightarrow> p \<in> set (eartip_points square0)) \<and>
                 (p \<in> set (concav_points square1) \<longleftrightarrow> p \<in> set (concav_points square0)))"
    unfolding p by blast+
  from m(4) c have "(2, scaled 4 4) \<notin> set (concav_points square1) \<and>
     ((2, scaled 4 4) \<in> set (eartip_points square1) \<longleftrightarrow> check_ear square1 (2, scaled 4 4))"
    by auto
  moreover from m(3) n have "(1, scaled 4 0) \<in> set (eartip_points square1) \<longleftrightarrow>
    (1, scaled 4 0) \<in> set (eartip_points square0)" by blast
  ultimately show ?thesis using square_new square_clip a l e m(1,2) c by blast
qed

text \<open>
  The claim as written fails after the last removal already. In Scenario A, the triangle,
  whichever of the three ear tips the loop selects, the two vertices that remain stay in
  the ear-tip set although they are no longer convex (their triangle is flat), and the
  concave set stays empty. It also fails with vertices to spare: when the ear at \<open>(0, 3)\<close> of
  the pentagon is clipped, four vertices remain, and \<open>(2, 3)\<close> is then the tip of a flat
  triangle; it stays in the ear-tip set and is not put into the concave set.
\<close>

theorem eartip_set_after_last_clip:
  "EarClipper_new triangle = Inr triangle0 \<and>
   list_all
     (\<lambda>p1. case clip p1 triangle0 of
             Inl e \<Rightarrow> False
           | Inr s1 \<Rightarrow>
               eartip_points s1 \<noteq> [] \<and> concav_points s1 = [] \<and>
               list_all (\<lambda>v. v \<in> set (points s1) \<and> \<not> check_convex s1 v) (eartip_points s1))
     (eartip_points triangle0) \<and>
   EarClipper_new pentagon = Inr pentagon0 \<and>
   (4, scaled 0 3) \<in> set (eartip_points pentagon0) \<and>
   (case clip (4, scaled 0 3) pentagon0 of
      Inl e \<Rightarrow> False
    | Inr s1 \<Rightarrow>
        length (points s1) = 4 \<and> (3, scaled 2 3) \<in> set (points s1) \<and>
        (3, scaled 2 3) \<in> set (eartip_points s1) \<and>
        (3, scaled 2 3) \<notin> set (concav_points s1) \<and>
        \<not> check_convex s1 (3, scaled 2 3))"
  by code_simp

section \<open>The clipping loop\<close>

lemma clip_removes_one:
  "clip p1 s = Inr s' \<Longrightarrow> length (points s') + 1 = length (points s)"
proof -
  assume c: "clip p1 s = Inr s'"
  from clip_points(1) [OF c] have "0 < length (points s)" by (rule length_pos_if_in_set)
  with clip_points [OF c] show ?thesis by (simp add: length_remove1)
qed

lemma iterations_bound: "iterations begin s \<le> length (points s) - 2"
proof (induction "begin" s rule: iterations.induct)
  case (1 "begin" s)
  show ?case
  proof (cases "eartip_points s \<noteq> [] \<and> length (points s) \<ge> 3")
    case False
    then show ?thesis by (auto simp: iterations.simps)
  next
    case True
    show ?thesis
    proof (cases "clip (begin (eartip_points s)) s")
      case (Inl e)
      with True show ?thesis by (auto simp: iterations.simps)
    next
      case (Inr s')
      from "1.IH" [OF True Inr] clip_removes_one [OF Inr] True Inr
      show ?thesis by (auto simp: iterations.simps [of "begin" s])
    qed
  qed
qed

lemma operator_call_exit:
  "operator_call begin s = Inr s' \<Longrightarrow> eartip_points s' = [] \<or> length (points s') < 3"
proof (induction "begin" s rule: operator_call.induct)
  case (1 "begin" s)
  show ?case
  proof (cases "eartip_points s \<noteq> [] \<and> length (points s) \<ge> 3")
    case False
    with "1.prems" show ?thesis by (auto simp: operator_call.simps split: if_splits)
  next
    case True
    with "1.prems" obtain t where t: "clip (begin (eartip_points s)) s = Inr t"
      and o: "operator_call begin t = Inr s'"
      by (subst (asm) operator_call.simps) (auto split: sum.splits)
    from "1.IH" [OF True t o] show ?thesis .
  qed
qed

lemma clip_cout:
  assumes "clip p1 s = Inr s'"
  shows "cout s' = cout s @
     (if triangle_area (snd (prev (points s) p1)) (snd p1) (snd (next (points s) p1)) = 0
      then [] else [(snd (prev (points s) p1), snd p1, snd (next (points s) p1))])"
    and "area_from_triangulation s' = area_from_triangulation s +
      triangle_area (snd (prev (points s) p1)) (snd p1) (snd (next (points s) p1))"
  using assms
  by (auto simp: clip_def Let_def update_neighbour_fields split: if_splits)

lemma operator_call_count:
  "operator_call begin s = Inr s' \<Longrightarrow>
   length (cout s') + degenerate_ears begin s + length (points s') =
   length (cout s) + length (points s)"
proof (induction "begin" s rule: operator_call.induct)
  case (1 "begin" s)
  show ?case
  proof (cases "eartip_points s \<noteq> [] \<and> length (points s) \<ge> 3")
    case False
    with "1.prems" show ?thesis
      by (auto simp: operator_call.simps degenerate_ears.simps split: if_splits)
  next
    case True
    with "1.prems" obtain t where t: "clip (begin (eartip_points s)) s = Inr t"
      and o: "operator_call begin t = Inr s'"
      by (subst (asm) operator_call.simps) (auto split: sum.splits)
    from "1.IH" [OF True t o] clip_removes_one [OF t] clip_cout(1) [OF t] True t
    show ?thesis by (simp add: degenerate_ears.simps [of "begin" s] Let_def)
  qed
qed

lemma operator_call_points:
  "operator_call begin s = Inr s' \<Longrightarrow> length (points s) \<ge> 3 \<Longrightarrow> length (points s') \<ge> 2"
proof (induction "begin" s rule: operator_call.induct)
  case (1 "begin" s)
  show ?case
  proof (cases "eartip_points s \<noteq> [] \<and> length (points s) \<ge> 3")
    case False
    with "1.prems" show ?thesis by (auto simp: operator_call.simps split: if_splits)
  next
    case True
    with "1.prems" obtain t where t: "clip (begin (eartip_points s)) s = Inr t"
      and o: "operator_call begin t = Inr s'"
      by (subst (asm) operator_call.simps) (auto split: sum.splits)
    show ?thesis
    proof (cases "length (points t) \<ge> 3")
      case True
      with "1.IH" [OF \<open>eartip_points s \<noteq> [] \<and> length (points s) \<ge> 3\<close> t o] show ?thesis .
    next
      case False
      with o have "s' = t" by (auto simp: operator_call.simps split: if_splits)
      with clip_removes_one [OF t] True show ?thesis by simp
    qed
  qed
qed

lemma clip_degenerate:
  assumes "p1 \<in> set (points s)"
    and "triangle_area (snd (prev (points s) p1)) (snd p1) (snd (next (points s) p1)) = 0"
  shows "\<exists>s'. clip p1 s = Inr s' \<and>
      cout s' = cout s \<and>
      area_from_triangulation s' = area_from_triangulation s \<and>
      points s' = remove1 p1 (points s) \<and>
      length (points s') + 1 = length (points s) \<and>
      (distinct (points s) \<longrightarrow> p1 \<notin> set (points s')) \<and>
      (eartip_points s \<noteq> [] \<and> length (points s) \<ge> 3 \<and> begin (eartip_points s) = p1 \<longrightarrow>
         operator_call begin s = operator_call begin s')"
proof -
  from assms obtain s' where c: "clip p1 s = Inr s'"
    by (auto simp: clip_erased)
  have "cout s' = cout s" "area_from_triangulation s' = area_from_triangulation s"
    using clip_cout [OF c] assms by simp_all
  moreover have "points s' = remove1 p1 (points s)" by (rule clip_points(2) [OF c])
  moreover have "length (points s') + 1 = length (points s)" by (rule clip_removes_one [OF c])
  moreover have "p1 \<notin> set (points s')" if "distinct (points s)"
    using that by (simp add: clip_points(2) [OF c])
  moreover have "operator_call begin s = operator_call begin s'"
    if "eartip_points s \<noteq> [] \<and> length (points s) \<ge> 3 \<and> begin (eartip_points s) = p1"
    using that c by (subst operator_call.simps) simp
  ultimately show ?thesis using c by blast
qed

lemma try_clip_degenerate:
  assumes "triangle_area_1 (snd (ps ! i)) (snd (ps ! ((i + 1) mod length ps)))
             (snd (ps ! ((i + 2) mod length ps))) = 0"
  shows "try_clip A (ps, T, out) i = Some (remove1 (ps ! ((i + 1) mod length ps)) ps, T, out)"
  using assms by (simp add: try_clip_def Let_def)

text \<open>
  Claim C5. In an iteration whose selected vertex has a triangle of signed area exactly
  zero, the iteration does not abort, writes no triangle and adds nothing to
  \<open>area_from_triangulation\<close>, the vertex is removed from the polygon all the same, and the
  loop goes on with the state the iteration leaves. This holds for the iteration of
  \<^verbatim>\<open>operator()\<close> (\<^const>\<open>clip\<close>) and for the loop body of earclipper.cpp (\<^const>\<open>try_clip\<close>).
\<close>

theorem degenerate_ear_consumed:
  "(p1 \<in> set (points s) \<and>
    triangle_area (snd (prev (points s) p1)) (snd p1) (snd (next (points s) p1)) = 0 \<longrightarrow>
    (\<exists>s'. clip p1 s = Inr s' \<and>
       cout s' = cout s \<and>
       area_from_triangulation s' = area_from_triangulation s \<and>
       points s' = remove1 p1 (points s) \<and>
       length (points s') + 1 = length (points s) \<and>
       (distinct (points s) \<longrightarrow> p1 \<notin> set (points s')) \<and>
       (eartip_points s \<noteq> [] \<and> length (points s) \<ge> 3 \<and> begin (eartip_points s) = p1 \<longrightarrow>
          operator_call begin s = operator_call begin s'))) \<and>
   (triangle_area_1 (snd (ps ! i)) (snd (ps ! ((i + 1) mod length ps)))
      (snd (ps ! ((i + 2) mod length ps))) = 0 \<longrightarrow>
    try_clip A (ps, T, out) i = Some (remove1 (ps ! ((i + 1) mod length ps)) ps, T, out))"
  using clip_degenerate [of p1 s "begin"] try_clip_degenerate [of ps i A T out] by blast

lemma flat_construction:
  "(case EarClipper_new flat of
      Inl e \<Rightarrow> Inl e | Inr s \<Rightarrow> clip (hd (eartip_points s)) s) = Inr flat1"
  by code_simp

theorem degenerate_ear_consumed_witness:
  "(2, scaled 4 0) \<in> set (points flat1) \<and>
   triangle_area (snd (prev (points flat1) (2, scaled 4 0))) (snd (2 :: nat, scaled 4 0))
     (snd (next (points flat1) (2, scaled 4 0))) = 0 \<and>
   clip (2, scaled 4 0) flat1 = Inr flat2 \<and>
   cout flat2 = cout flat1 \<and>
   area_from_triangulation flat2 = area_from_triangulation flat1 \<and>
   points flat2 = remove1 (2, scaled 4 0) (points flat1) \<and>
   distinct (points flat1) \<and> (2, scaled 4 0) \<notin> set (points flat2) \<and>
   eartip_points flat1 \<noteq> [] \<and> length (points flat1) \<ge> 3 \<and>
   hd (eartip_points flat1) = (2, scaled 4 0) \<and>
   operator_call hd flat1 = operator_call hd flat2 \<and>
   operator_call hd flat2 = Inr flat2 \<and>
   triangle_area_1 (scaled 0 0) (scaled 2 0) (scaled 4 0) = 0 \<and>
   try_clip (12 * scale * scale) (enumerate 0 flat, 0, []) 0 =
     Some ([(0, scaled 0 0), (2, scaled 4 0), (3, scaled 0 3)], 0, [])"
proof -
  have a: "(2, scaled 4 0) \<in> set (points flat1)" by (simp add: flat1_def)
  have z: "triangle_area (snd (prev (points flat1) (2, scaled 4 0))) (snd (2 :: nat, scaled 4 0))
     (snd (next (points flat1) (2, scaled 4 0))) = 0" by code_simp
  have c: "clip (2, scaled 4 0) flat1 = Inr flat2" by code_simp
  have d: "distinct (points flat1)" by code_simp
  have g: "eartip_points flat1 \<noteq> [] \<and> length (points flat1) \<ge> 3 \<and>
    hd (eartip_points flat1) = (2, scaled 4 0)" by (simp add: flat1_def)
  have f: "operator_call hd flat2 = Inr flat2" by code_simp
  have t: "triangle_area_1 (scaled 0 0) (scaled 2 0) (scaled 4 0) = 0" by code_simp
  have e: "enumerate 0 flat = [(0, scaled 0 0), (1, scaled 2 0), (2, scaled 4 0), (3, scaled 0 3)]"
    by (simp add: flat_def)
  note inst = degenerate_ear_consumed [of "(2, scaled 4 0)" flat1 hd "enumerate 0 flat" 0
      "12 * scale * scale" 0 "[]"]
  from inst a z c d g
  have 1: "cout flat2 = cout flat1 \<and>
      area_from_triangulation flat2 = area_from_triangulation flat1 \<and>
      points flat2 = remove1 (2, scaled 4 0) (points flat1) \<and>
      (2, scaled 4 0) \<notin> set (points flat2) \<and>
      operator_call hd flat1 = operator_call hd flat2"
    by auto
  from inst t
  have 2: "try_clip (12 * scale * scale) (enumerate 0 flat, 0, []) 0 =
     Some ([(0, scaled 0 0), (2, scaled 4 0), (3, scaled 0 3)], 0, [])"
    by (simp add: e)
  from 1 2 a z c d g f t show ?thesis by blast
qed

text \<open>
  The loop of \<^verbatim>\<open>operator()\<close> terminates (\<^const>\<open>operator_call\<close> and \<^const>\<open>iterations\<close> are total:
  the number of vertices decreases). Every iteration that completes removes exactly one
  vertex, a polygon of \<open>n\<close> vertices sees at most \<open>n - 2\<close> iterations, the loop is left only
  when the ear-tip set is empty or fewer than 3 vertices remain, and it is not left while
  neither is the case.
\<close>

theorem clipping_loop_terminates:
  "(clip p1 s = Inr s1 \<longrightarrow> length (points s1) + 1 = length (points s)) \<and>
   iterations begin s \<le> length (points s) - 2 \<and>
   (operator_call begin s = Inr s2 \<longrightarrow> eartip_points s2 = [] \<or> length (points s2) < 3) \<and>
   (eartip_points s \<noteq> [] \<and> length (points s) \<ge> 3 \<longrightarrow> 0 < iterations begin s)"
proof (intro conjI impI)
  show "length (points s1) + 1 = length (points s)" if "clip p1 s = Inr s1"
    using that by (rule clip_removes_one)
  show "iterations begin s \<le> length (points s) - 2" by (rule iterations_bound)
  show "eartip_points s2 = [] \<or> length (points s2) < 3" if "operator_call begin s = Inr s2"
    using that by (rule operator_call_exit)
  show "0 < iterations begin s" if "eartip_points s \<noteq> [] \<and> length (points s) \<ge> 3"
    using that by (subst iterations.simps) (simp split: sum.splits)
qed

theorem clipping_loop_terminates_witness:
  "clip (2, scaled 0 3) triangle0 = Inr triangle1 \<and>
   length (points triangle1) + 1 = length (points triangle0) \<and>
   iterations hd triangle0 = 1 \<and> iterations hd triangle0 \<le> length (points triangle0) - 2 \<and>
   operator_call hd triangle0 = Inr triangle1 \<and>
   eartip_points triangle1 \<noteq> [] \<and> length (points triangle1) < 3 \<and>
   eartip_points triangle0 \<noteq> [] \<and> length (points triangle0) \<ge> 3"
proof -
  have c: "clip (2, scaled 0 3) triangle0 = Inr triangle1" by code_simp
  have o: "operator_call hd triangle0 = Inr triangle1" by code_simp
  have i: "iterations hd triangle0 = 1" by code_simp
  have g: "eartip_points triangle1 \<noteq> [] \<and> eartip_points triangle0 \<noteq> [] \<and>
    length (points triangle0) \<ge> 3"
    by (simp add: triangle0_def triangle1_def)
  from clipping_loop_terminates [of "(2, scaled 0 3)" triangle0 triangle1 hd triangle1] c o i g
  show ?thesis by auto
qed

subsection \<open>The loop of earclipper.cpp\<close>

text \<open>\<^verbatim>\<open>main\<close> of earclipper.cpp has no ear-tip set to run empty: a round of its loop that
  finds neither an ear nor a degenerate vertex leaves the state as it is, and the loop
  does not return.\<close>

lemma clip_loop_stuck:
  assumes "length (fst st) \<ge> 3" and "clip_round A st = None"
  shows "clip_loop A st = None"
proof (rule ccontr)
  assume "clip_loop A st \<noteq> None"
  then obtain r where r: "clip_loop A st = Some r" by auto
  have "\<not> (A = A \<and> st = st)"
  proof (rule clip_loop.raw_induct [where P = "\<lambda>B s t. \<not> (B = A \<and> s = st)", OF _ r])
    fix f B s t
    assume IH: "\<And>B s t. f B s = Some t \<Longrightarrow> \<not> (B = A \<and> s = st)"
      and step: "(if 3 \<le> length (fst s)
                  then case clip_round B s of None \<Rightarrow> f B s | Some s' \<Rightarrow> f B s'
                  else Some s) = Some t"
    show "\<not> (B = A \<and> s = st)"
    proof
      assume "B = A \<and> s = st"
      with step assms have "f A st = Some t" by simp
      from IH [OF this] show False by simp
    qed
  qed
  then show False by simp
qed

lemma dart_rounds:
  "integrate_polygon (enumerate 0 dart) = 3 * scale * scale"
  "clip_round (3 * scale * scale) (enumerate 0 dart, 0, []) = Some dart1"
  "clip_round (3 * scale * scale) dart1 = Some dart2"
  "clip_round (3 * scale * scale) dart2 = None"
  by code_simp+

lemma dart_loop: "clip_loop (3 * scale * scale) (enumerate 0 dart, 0, []) = None"
proof -
  have l: "length (fst dart2) \<ge> 3" "length (fst dart1) \<ge> 3"
    "length (fst (enumerate 0 dart, 0 :: Num, [] :: (Point \<times> Point \<times> Point) list)) \<ge> 3"
    by (simp_all add: dart1_def dart2_def dart_def)
  have "clip_loop (3 * scale * scale) dart2 = None"
    using l(1) dart_rounds(4) by (rule clip_loop_stuck)
  then have "clip_loop (3 * scale * scale) dart1 = None"
    using l(2) dart_rounds(3) by (subst clip_loop.simps) simp
  then show ?thesis
    using l(3) dart_rounds(2) by (subst clip_loop.simps) simp
qed

lemma dart_class:
  "(case EarClipper_new dart of
      Inl e \<Rightarrow> False
    | Inr s \<Rightarrow>
        (case operator_call hd s of
           Inl e \<Rightarrow> False
         | Inr s' \<Rightarrow> length (points s') = 2 \<and> length (cout s') = 3 \<and>
             area_from_triangulation s' = area_from_integral s'))"
  by code_simp

text \<open>
  Claim C7 at the simple pentagon \<open>(3, 2) (3, 3) (1, 2) (0, 1) (2, 2)\<close>: the clipping loop of
  earclipper.cpp does not terminate. Its first round clips the ear at \<open>(3, 3)\<close>, whose
  diagonal from \<open>(1, 2)\<close> to \<open>(3, 2)\<close> passes through the vertex \<open>(2, 2)\<close>; its second round clips
  \<open>(1, 2)\<close>, with \<open>(2, 2)\<close> on an edge of the triangle; the three vertices that remain turn the
  other way round, so none of them is an ear or degenerate, and every further round leaves
  them as they are. The loop of \<^verbatim>\<open>operator()\<close> returns on the same input.
\<close>

theorem main_does_not_return:
  "simple_polygon dart \<and> main dart = None \<and>
   clip_round (integrate_polygon (enumerate 0 dart)) dart2 = None \<and> length (fst dart2) = 3 \<and>
   (case EarClipper_new dart of
      Inl e \<Rightarrow> False
    | Inr s \<Rightarrow>
        (case operator_call hd s of
           Inl e \<Rightarrow> False
         | Inr s' \<Rightarrow> length (points s') = 2 \<and> length (cout s') = 3 \<and>
             area_from_triangulation s' = area_from_integral s'))"
proof -
  have s: "simple_polygon dart" by code_simp
  have e: "(let ps = enumerate 0 dart in
            if x (snd (hd ps)) = x (snd (last ps)) \<and> y (snd (hd ps)) = y (snd (last ps))
            then butlast ps else ps) = enumerate 0 dart"
    by code_simp
  have "length dart \<ge> 3" by (simp add: dart_def)
  then have m: "main dart = None"
    using e dart_loop dart_rounds(1) by (simp add: main_def Let_def)
  have "length (fst dart2) = 3" by (simp add: dart2_def)
  with s m dart_rounds(1,4) dart_class show ?thesis by simp
qed

subsection \<open>The number of triangles\<close>

text \<open>
  An iteration writes one triangle when the area of its ear is not zero and none when it
  is. A run of the loop of \<^verbatim>\<open>operator()\<close> that completes on \<open>n\<close> vertices therefore writes
  \<open>n - r - d\<close> triangles, where \<open>r\<close> vertices remain at the end and \<open>d\<close> degenerate ears were
  consumed: never more than \<open>n - 2\<close>, and \<open>n - 2\<close> when the loop stops at 2 vertices and met no
  degenerate ear.
\<close>

theorem emitted_triangles:
  "(clip p1 s = Inr s1 \<longrightarrow>
      length (cout s1) = length (cout s) +
        (if triangle_area (snd (prev (points s) p1)) (snd p1) (snd (next (points s) p1)) = 0
         then 0 else 1)) \<and>
   (operator_call begin s = Inr s2 \<longrightarrow>
      length (cout s2) + degenerate_ears begin s + length (points s2) =
        length (cout s) + length (points s) \<and>
      (length (points s) \<ge> 3 \<longrightarrow> length (cout s2) \<le> length (cout s) + (length (points s) - 2)) \<and>
      (cout s = [] \<and> degenerate_ears begin s = 0 \<and> length (points s2) = 2 \<longrightarrow>
         length (cout s2) = length (points s) - 2))"
proof (intro conjI impI)
  show "length (cout s1) = length (cout s) +
        (if triangle_area (snd (prev (points s) p1)) (snd p1) (snd (next (points s) p1)) = 0
         then 0 else 1)" if "clip p1 s = Inr s1"
    using clip_cout(1) [OF that] by simp
next
  assume o: "operator_call begin s = Inr s2"
  note c = operator_call_count [OF o]
  show "length (cout s2) + degenerate_ears begin s + length (points s2) =
        length (cout s) + length (points s)" by (rule c)
  show "length (cout s2) \<le> length (cout s) + (length (points s) - 2)"
    if "length (points s) \<ge> 3"
    using c operator_call_points [OF o that] by simp
  show "length (cout s2) = length (points s) - 2"
    if "cout s = [] \<and> degenerate_ears begin s = 0 \<and> length (points s2) = 2"
    using c that by simp
qed

theorem emitted_triangles_witness:
  "clip (3, scaled 0 4) square0 = Inr square1 \<and>
   length (cout square1) = length (cout square0) + 1 \<and>
   operator_call hd square0 = Inr square2 \<and>
   cout square0 = [] \<and> degenerate_ears hd square0 = 0 \<and> length (points square2) = 2 \<and>
   length (points square0) \<ge> 3 \<and>
   length (cout square2) = length (points square0) - 2 \<and> length (cout square2) = 2"
proof -
  have c: "clip (3, scaled 0 4) square0 = Inr square1" by code_simp
  have a: "triangle_area (snd (prev (points square0) (3, scaled 0 4))) (snd (3 :: nat, scaled 0 4))
     (snd (next (points square0) (3, scaled 0 4))) \<noteq> 0" by code_simp
  have o: "operator_call hd square0 = Inr square2" by code_simp
  have d: "degenerate_ears hd square0 = 0" by code_simp
  have g: "cout square0 = [] \<and> length (points square2) = 2 \<and> length (points square0) \<ge> 3 \<and>
    length (cout square2) = 2"
    by (simp add: square0_def square2_def)
  from emitted_triangles [of "(3, scaled 0 4)" square0 square1 hd square2] c a o d g
  show ?thesis by auto
qed

text \<open>
  Degenerate ears arise during clipping on a simple pentagon without three consecutive
  collinear vertices. The vertex \<open>(1, 2)\<close> lies on the segment from \<open>(2, 3)\<close> to \<open>(0, 1)\<close>. In
  \<^verbatim>\<open>operator()\<close>, when \<^verbatim>\<open>eartip_points.begin()\<close> yields the most recently inserted ear tip,
  the ear at \<open>(0, 3)\<close> is clipped first (a vertex on its boundary is not counted as inside);
  then \<open>(2, 3)\<close> is the tip of a flat triangle and is consumed as a degenerate ear. In
  \<^verbatim>\<open>main\<close> of earclipper.cpp the ear at \<open>(2, 0)\<close> is clipped first, and \<open>(1, 2)\<close> is then
  the middle of three vertices on one line and is erased as degenerate. Either way two
  triangles are written, and they add up to the area of the pentagon.
\<close>

theorem pentagon_emits_two:
  "simple_polygon pentagon \<and> no_three_consecutive_collinear pentagon \<and>
   EarClipper_new pentagon = Inr pentagon0 \<and>
   operator_call hd pentagon0 = Inr pentagon3 \<and>
   length (cout pentagon3) = 2 \<and>
   main pentagon = Some (Inr pentagon_main) \<and>
   length (snd (snd pentagon_main)) = 2 \<and> length pentagon - 2 = 3"
  by code_simp

subsection \<open>Runs without a degenerate ear\<close>

lemma hexagon_new: "EarClipper_new hexagon = Inr hexagon0"
  by code_simp

lemma hexagon_clip: "clip (5, scaled 1 1) hexagon0 = Inr hexagon1"
  by code_simp

lemma hexagon_clip2: "clip (4, scaled 3 0) hexagon1 = Inr hexagon2"
  by code_simp

lemma hexagon_clip3: "clip (hd (eartip_points hexagon2)) hexagon2 = Inl Assert_convex"
  by code_simp

lemma hexagon_run: "operator_call hd hexagon0 = Inl Assert_convex"
  by code_simp

lemma hexagon_main: "main hexagon = Some (Inr hexagon_end)"
  by code_simp

lemma dart_main: "main dart = None"
proof -
  have e: "(let ps = enumerate 0 dart in
            if x (snd (hd ps)) = x (snd (last ps)) \<and> y (snd (hd ps)) = y (snd (last ps))
            then butlast ps else ps) = enumerate 0 dart"
    by code_simp
  have "length dart \<ge> 3" by (simp add: dart_def)
  then show ?thesis
    using e dart_loop dart_rounds(1) by (simp add: main_def Let_def)
qed

text \<open>
  Claim C8 at the hexagon \<open>(0, 3) (2, 2) (2, 1) (3, 3) (3, 0) (1, 1)\<close> and at the pentagon
  \<open>(3, 2) (3, 3) (1, 2) (0, 1) (2, 2)\<close>, two simple polygons without three consecutive collinear
  vertices. On the hexagon \<^verbatim>\<open>operator()\<close>, with \<^verbatim>\<open>eartip_points.begin()\<close> yielding the most
  recently inserted ear tip, writes two triangles, meets no degenerate ear, and aborts in its
  third iteration on \<^verbatim>\<open>assert(area == 0 || check_convex(p1))\<close>: two triangles, not four. On the
  pentagon \<^verbatim>\<open>main\<close> of earclipper.cpp writes two triangles in two rounds, erases no degenerate
  vertex, and does not return: two triangles, not three.
\<close>

theorem two_triangles_without_degenerate_ear:
  "simple_polygon hexagon \<and> no_three_consecutive_collinear hexagon \<and>
   EarClipper_new hexagon = Inr hexagon0 \<and>
   clip_steps 2 hd hexagon0 = Inr hexagon2 \<and> length (cout hexagon2) = 2 \<and>
   clip (hd (eartip_points hexagon2)) hexagon2 = Inl Assert_convex \<and>
   operator_call hd hexagon0 = Inl Assert_convex \<and>
   degenerate_ears hd hexagon0 = 0 \<and> length hexagon - 2 = 4 \<and>
   simple_polygon dart \<and> no_three_consecutive_collinear dart \<and>
   clip_round (integrate_polygon (enumerate 0 dart)) (enumerate 0 dart, 0, []) = Some dart1 \<and>
   clip_round (integrate_polygon (enumerate 0 dart)) dart1 = Some dart2 \<and>
   clip_round (integrate_polygon (enumerate 0 dart)) dart2 = None \<and>
   length (snd (snd dart1)) = 1 \<and> length (snd (snd dart2)) = 2 \<and>
   main dart = None \<and> length dart - 2 = 3"
proof -
  have h: "simple_polygon hexagon \<and> no_three_consecutive_collinear hexagon" by code_simp
  have s: "clip_steps 2 hd hexagon0 = Inr hexagon2" by code_simp
  have d: "degenerate_ears hd hexagon0 = 0" by code_simp
  have l: "length (cout hexagon2) = 2 \<and> length hexagon - 2 = 4"
    by (simp add: hexagon2_def hexagon_def)
  have p: "simple_polygon dart \<and> no_three_consecutive_collinear dart" by code_simp
  have m: "length (snd (snd dart1)) = 1 \<and> length (snd (snd dart2)) = 2 \<and> length dart - 2 = 3"
    by (simp add: dart1_def dart2_def dart_def)
  from h s d l p m hexagon_new hexagon_clip3 hexagon_run dart_rounds dart_main
  show ?thesis by simp
qed

section \<open>The ear test on the concave set and on all vertices\<close>

text \<open>
  In every state that arises during clipping the concave set holds remaining vertices only,
  so a vertex whose triangle has no other remaining vertex strictly inside passes the ear
  test on the concave set.
\<close>

theorem check_ear_all_implies_check_ear:
  "arising s \<and> check_ear_all s p1 \<longrightarrow> check_ear s p1"
proof
  assume a: "arising s \<and> check_ear_all s p1"
  then have "wf s" by (simp add: arising_wf)
  then have sub: "set (concav_points s) \<subseteq> set (points s)" by (simp add: wf_def)
  let ?p0 = "prev (points s) p1" and ?p2 = "next (points s) p1"
  have "\<not> inside_triangle (snd v) (snd ?p0) (snd p1) (snd ?p2)" if "v \<in> set (concav_points s)" for v
  proof (cases "v \<noteq> ?p0 \<and> v \<noteq> p1 \<and> v \<noteq> ?p2")
    case True
    with that sub have "v \<in> set (filter (\<lambda>v. v \<noteq> ?p0 \<and> v \<noteq> p1 \<and> v \<noteq> ?p2) (points s))"
      by auto
    moreover from a have "\<forall>v \<in> set (filter (\<lambda>v. v \<noteq> ?p0 \<and> v \<noteq> p1 \<and> v \<noteq> ?p2) (points s)).
        \<not> inside_triangle (snd v) (snd ?p0) (snd p1) (snd ?p2)"
      unfolding check_ear_all_def Let_def list_all_iff by (rule conjunct2)
    ultimately show ?thesis by blast
  next
    case False
    then show ?thesis by (auto simp: inside_triangle_corner)
  qed
  then show "check_ear s p1" by (simp add: check_ear_def Let_def list_all_iff)
qed

theorem check_ear_all_implies_check_ear_witness:
  "arising square0 \<and> check_ear_all square0 (3, scaled 0 4) \<and> check_ear square0 (3, scaled 0 4)"
proof -
  have a: "arising square0" using square_new by (rule arising.constructed)
  have c: "check_ear_all square0 (3, scaled 0 4)" by code_simp
  from check_ear_all_implies_check_ear [of square0 "(3, scaled 0 4)"] a c show ?thesis by simp
qed

text \<open>
  Claim C6 at the hexagon \<open>(0, 3) (2, 2) (2, 1) (3, 3) (3, 0) (1, 1)\<close>, a simple polygon, with
  \<^verbatim>\<open>eartip_points.begin()\<close> yielding the most recently inserted ear tip. After the first ear, at
  \<open>(1, 1)\<close>, is clipped, the vertex \<open>(3, 0)\<close> is convex and passes the ear test on the concave
  set, whose only member \<open>(2, 1)\<close> is on an edge of its triangle, but the convex vertex
  \<open>(2, 2)\<close> lies strictly inside that triangle: the test on all vertices says no. The loop
  clips \<open>(3, 0)\<close> all the same, and in its third iteration
  \<^verbatim>\<open>assert(area == 0 || check_convex(p1))\<close> fails. \<^verbatim>\<open>main\<close> of earclipper.cpp, whose ear test
  looks at every vertex, returns with a triangulation of the hexagon.
\<close>

theorem reflex_test_misses_convex_vertex:
  "simple_polygon hexagon \<and> EarClipper_new hexagon = Inr hexagon0 \<and>
   hd (eartip_points hexagon0) = (5, scaled 1 1) \<and>
   clip (5, scaled 1 1) hexagon0 = Inr hexagon1 \<and> arising hexagon1 \<and>
   hd (eartip_points hexagon1) = (4, scaled 3 0) \<and>
   check_convex hexagon1 (4, scaled 3 0) \<and> check_ear hexagon1 (4, scaled 3 0) \<and>
   \<not> check_ear_all hexagon1 (4, scaled 3 0) \<and>
   inside_triangle (scaled 2 2) (scaled 3 3) (scaled 3 0) (scaled 0 3) \<and>
   clip (4, scaled 3 0) hexagon1 = Inr hexagon2 \<and>
   clip (hd (eartip_points hexagon2)) hexagon2 = Inl Assert_convex \<and>
   operator_call hd hexagon0 = Inl Assert_convex \<and>
   main hexagon = Some (Inr hexagon_end) \<and>
   fst (snd hexagon_end) = integrate_polygon (enumerate 0 hexagon)"
proof -
  have a0: "arising hexagon0" using hexagon_new by (rule arising.constructed)
  have "arising hexagon1"
    using a0 _ _ _ hexagon_clip by (rule arising.clipped) (simp_all add: hexagon0_def)
  moreover have "simple_polygon hexagon" by code_simp
  moreover have "hd (eartip_points hexagon0) = (5, scaled 1 1)" by (simp add: hexagon0_def)
  moreover have "hd (eartip_points hexagon1) = (4, scaled 3 0)" by (simp add: hexagon1_def)
  moreover have "check_convex hexagon1 (4, scaled 3 0)" by code_simp
  moreover have "check_ear hexagon1 (4, scaled 3 0)" by code_simp
  moreover have "\<not> check_ear_all hexagon1 (4, scaled 3 0)" by code_simp
  moreover have "inside_triangle (scaled 2 2) (scaled 3 3) (scaled 3 0) (scaled 0 3)" by code_simp
  moreover have "fst (snd hexagon_end) = integrate_polygon (enumerate 0 hexagon)" by code_simp
  ultimately show ?thesis
    using hexagon_new hexagon_clip hexagon_clip2 hexagon_clip3 hexagon_run hexagon_main
    by blast
qed

section \<open>The consistency check\<close>

subsection \<open>The polygon without one vertex\<close>

text \<open>The shoelace sum does not depend on the node the polygon starts at, and erasing a node
  takes the cross product of its triangle out of it.\<close>

lemma path_zip: "path (p # ps) = sum_list (map (\<lambda>(a, b). cr a b) (zip (p # ps) ps))"
  by (induction ps arbitrary: p) simp_all

lemma shoelace_path: "shoelace (p # ps) = path (p # ps @ [p])"
proof -
  have "zip (p # ps @ [p]) (ps @ [p]) = zip (p # ps) (ps @ [p])"
    using zip_append1 [of "p # ps" "[p]" "ps @ [p]"] by simp
  then show ?thesis
    unfolding path_zip by (simp add: shoelace_def edges_def cr_def [abs_def])
qed

lemma path_snoc: "path ((p # ps) @ [q]) = path (p # ps) + cr (last (p # ps)) q"
  by (induction ps arbitrary: p) simp_all

lemma shoelace_rotate1: "shoelace (rotate1 ps) = shoelace ps"
proof (cases ps)
  case Nil
  then show ?thesis by simp
next
  case (Cons p qs)
  show ?thesis
  proof (cases qs)
    case Nil
    with Cons show ?thesis by simp
  next
    case (Cons q rs)
    have "shoelace (rotate1 ps) = path (q # (rs @ [p]) @ [q])"
      using \<open>ps = p # qs\<close> Cons by (simp add: shoelace_path)
    also have "\<dots> = path ((q # rs) @ [p]) + cr p q"
      using path_snoc [of q "rs @ [p]" q] by simp
    also have "\<dots> = cr p q + path ((q # rs) @ [p])" by simp
    also have "\<dots> = shoelace ps"
      using \<open>ps = p # qs\<close> Cons by (simp add: shoelace_path)
    finally show ?thesis .
  qed
qed

lemma shoelace_rotate: "shoelace (rotate n ps) = shoelace ps"
  by (induction n) (simp_all add: shoelace_rotate1)

lemma shoelace_append: "shoelace (as @ bs) = shoelace (bs @ as)"
  using shoelace_rotate [of "length as" "as @ bs"] by (simp add: rotate_append)

lemma shoelace_Cons:
  assumes "cs \<noteq> []"
  shows "shoelace (p # cs) = shoelace cs + (cr (last cs) p + cr p (hd cs) - cr (last cs) (hd cs))"
proof -
  from assms obtain c cs' where c: "cs = c # cs'" by (cases cs) auto
  have "shoelace (p # cs) = cr p c + path ((c # cs') @ [p])"
    by (simp add: shoelace_path c)
  also have "\<dots> = cr p c + (path (c # cs') + cr (last cs) p)"
    by (simp only: path_snoc c)
  finally have 1: "shoelace (p # cs) = cr p c + (path (c # cs') + cr (last cs) p)" .
  have "shoelace cs = path ((c # cs') @ [c])" by (simp add: shoelace_path c)
  also have "\<dots> = path (c # cs') + cr (last cs) c" by (simp only: path_snoc c)
  finally have 2: "shoelace cs = path (c # cs') + cr (last cs) c" .
  from 1 2 show ?thesis by (simp add: c)
qed

lemma cross_product_cr:
  "cross_product (minus_Point (snd b) (snd a)) (minus_Point (snd c) (snd a)) =
   cr a b + cr b c - cr a c"
  by (simp add: cross_product_def minus_Point_def cr_def algebra_simps)

lemma shoelace_remove1:
  assumes d: "distinct ps" and p: "p \<in> set ps" and l: "length ps \<ge> 2"
  shows "shoelace ps = shoelace (remove1 p ps) +
     cross_product (minus_Point (snd p) (snd (prev ps p))) (minus_Point (snd (next ps p)) (snd (prev ps p)))"
proof -
  from p obtain as bs where s: "ps = as @ p # bs" by (auto simp: in_set_conv_decomp)
  have d': "distinct (as @ p # bs)" using d s by simp
  have r: "remove1 p ps = as @ bs" using d' by (simp add: s remove1_append)
  define cs where "cs = bs @ as"
  have ne: "cs \<noteq> []" using l s by (auto simp: cs_def)
  have "hd ((bs @ as) @ [p]) = hd (bs @ as)" using ne unfolding cs_def by (rule hd_append2)
  then have nx: "next ps p = hd cs" unfolding s next_split [OF d'] by (simp add: cs_def)
  have pr: "prev ps p = last cs" unfolding s prev_split [OF d'] using ne by (auto simp: cs_def)
  have "shoelace ps = shoelace (p # cs)"
    unfolding s cs_def using shoelace_append [of as "p # bs"] by simp
  also have "\<dots> = shoelace cs + (cr (last cs) p + cr p (hd cs) - cr (last cs) (hd cs))"
    by (rule shoelace_Cons [OF ne])
  also have "shoelace cs = shoelace (remove1 p ps)"
    unfolding r cs_def by (rule shoelace_append)
  finally show ?thesis by (simp add: cross_product_cr nx pr)
qed

lemma shoelace_short: "length ps < 3 \<Longrightarrow> shoelace ps = 0"
proof -
  assume "length ps < 3"
  then consider "ps = []" | a where "ps = [a]" | a b where "ps = [a, b]"
    by (cases ps; cases "tl ps"; cases "tl (tl ps)") auto
  then show ?thesis
    by cases (simp_all add: shoelace_def edges_def)
qed

subsection \<open>The triangles and the remaining polygon\<close>

text \<open>
  Each iteration of \<^verbatim>\<open>operator()\<close> moves the area of its triangle from the polygon to
  \<open>area_from_triangulation\<close>, so \<^const>\<open>area_defect\<close> stays \<open>0\<close>; a cross product that
  \<^const>\<open>triangle_area\<close> snaps to zero although it is not zero shifts it by a multiple of \<open>2\<^sup>3\<^sup>1\<close>,
  and the final comparison, which looks at the low 32 bits, lets such a difference pass. The
  assertion therefore holds whenever the loop ends with fewer than 3 vertices, and it can
  fail only in a state with no ear tip and at least 3 vertices.
\<close>

lemma snap_defect: "(2 ^ 31 :: Num) dvd snap c - c"
  by (simp add: snap_iff take_bit_eq_0_iff)

lemma clip_defect:
  assumes d: "distinct (points s)" and l: "length (points s) \<ge> 3" and c: "clip p1 s = Inr s'"
  shows "(2 ^ 31 :: Num) dvd area_defect s' - area_defect s"
proof -
  let ?c = "cross_product (minus_Point (snd p1) (snd (prev (points s) p1)))
              (minus_Point (snd (next (points s) p1)) (snd (prev (points s) p1)))"
  have p: "p1 \<in> set (points s)" by (rule clip_points(1) [OF c])
  have "shoelace (points s) = shoelace (points s') + ?c"
    using shoelace_remove1 [OF d p] l by (simp add: clip_points(2) [OF c])
  moreover have "area_from_triangulation s' = area_from_triangulation s + snap ?c"
    using clip_cout(2) [OF c] by (simp add: triangle_area_snap)
  moreover have "area_from_integral s' = area_from_integral s"
    using c by (auto simp: clip_erased update_neighbour_fields erased_fields split: if_splits)
  ultimately have "area_defect s' - area_defect s = snap ?c - ?c"
    by (simp add: area_defect_def)
  then show ?thesis using snap_defect [of ?c] by simp
qed

lemma EarClipper_new_defect:
  assumes "EarClipper_new pts = Inr s"
  shows "area_defect s = 0"
proof -
  note f = EarClipper_new_points [OF assms]
  have "area_from_integral s = shoelace (points s)"
    using f(5) integrate_polygon_shoelace [OF f(2), THEN conjunct2] by (rule trans)
  with f(4) show ?thesis by (simp add: area_defect_def)
qed

lemma arising_defect: "arising s \<Longrightarrow> (2 ^ 31 :: Num) dvd area_defect s"
proof (induction rule: arising.induct)
  case (constructed pts s)
  then show ?case by (simp add: EarClipper_new_defect)
next
  case (clipped s p1 s')
  have "distinct (points s)" using arising_wf [OF clipped(1)] by (simp add: wf_def)
  from clip_defect [OF this clipped(3) clipped(5)] clipped.IH
  have "(2 ^ 31 :: Num) dvd (area_defect s' - area_defect s) + area_defect s"
    by (rule dvd_add)
  then show ?case by simp
qed

lemma assertion_passes_below_three:
  assumes "arising s" and "length (points s) < 3"
  shows "scast (abs_int (ucast (area_from_triangulation s - area_from_integral s))) \<le>s (0 :: Num)"
proof -
  have "area_from_triangulation s - area_from_integral s = area_defect s"
    using assms(2) by (simp add: area_defect_def shoelace_short)
  with arising_defect [OF assms(1)] show ?thesis
    by (simp add: snap_zero_iff take_bit_eq_0_iff)
qed

lemma clip_not_Assert_area: "clip p1 s \<noteq> Inl Assert_area"
  by (simp add: clip_erased)

lemma assertion_fails_with_vertices_left:
  "(\<And>xs. xs \<noteq> [] \<Longrightarrow> begin xs \<in> set xs) \<Longrightarrow> arising s \<Longrightarrow>
   operator_call begin s = Inl Assert_area \<Longrightarrow>
   \<exists>s'. arising s' \<and> eartip_points s' = [] \<and> length (points s') \<ge> 3 \<and>
      \<not> scast (abs_int (ucast (area_from_triangulation s' - area_from_integral s'))) \<le>s
          (0 :: Num)"
proof (induction "begin" s rule: operator_call.induct)
  case (1 "begin" s)
  show ?case
  proof (cases "eartip_points s \<noteq> [] \<and> length (points s) \<ge> 3")
    case False
    with "1.prems"(3) have n: "\<not> scast (abs_int (ucast (area_from_triangulation s -
        area_from_integral s))) \<le>s (0 :: Num)"
      by (auto simp: operator_call.simps split: if_splits)
    with assertion_passes_below_three [OF "1.prems"(2)] have "length (points s) \<ge> 3"
      by (cases "length (points s) < 3") auto
    with False n "1.prems"(2) show ?thesis by auto
  next
    case True
    have "operator_call begin s =
        (case clip (begin (eartip_points s)) s of
           Inl e \<Rightarrow> Inl e | Inr s' \<Rightarrow> operator_call begin s')"
      using True by (subst operator_call.simps) simp
    with "1.prems"(3) obtain t where t: "clip (begin (eartip_points s)) s = Inr t"
      and o: "operator_call begin t = Inl Assert_area"
      using clip_not_Assert_area [of "begin (eartip_points s)" s]
      by (auto split: sum.splits)
    have "begin (eartip_points s) \<in> set (eartip_points s)" using True "1.prems"(1) by simp
    with "1.prems"(2) True t have "arising t" by (auto intro: arising.clipped)
    from "1.IH" [OF True t "1.prems"(1) this o] show ?thesis .
  qed
qed

subsection \<open>The triangles and the remaining polygon in earclipper.cpp\<close>

lemma next_nth:
  assumes d: "distinct ps" and j: "j < length ps"
  shows "next ps (ps ! j) = ps ! ((j + 1) mod length ps)"
proof -
  have s: "ps = take j ps @ ps ! j # drop (Suc j) ps" using j by (rule id_take_nth_drop)
  have d': "distinct (take j ps @ ps ! j # drop (Suc j) ps)" using d s by simp
  have n: "next ps (ps ! j) = hd (drop (Suc j) ps @ take j ps @ [ps ! j])"
    using next_split [OF d'] s by simp
  show ?thesis
  proof (cases "Suc j < length ps")
    case True
    then have "hd (drop (Suc j) ps @ take j ps @ [ps ! j]) = ps ! Suc j"
      by (simp add: hd_drop_conv_nth)
    with n True show ?thesis by simp
  next
    case False
    with j have e: "length ps = Suc j" by simp
    have "hd (drop (Suc j) ps @ take j ps @ [ps ! j]) = ps ! 0"
    proof (cases j)
      case 0
      then show ?thesis using e by simp
    next
      case (Suc k)
      then have "take j ps = ps ! 0 # take k (tl ps)"
        using e by (cases ps) simp_all
      then show ?thesis using e by simp
    qed
    with n e show ?thesis by simp
  qed
qed

lemma prev_nth:
  assumes d: "distinct ps" and j: "j < length ps"
  shows "prev ps (ps ! j) = ps ! ((j + length ps - 1) mod length ps)"
proof -
  have s: "ps = take j ps @ ps ! j # drop (Suc j) ps" using j by (rule id_take_nth_drop)
  have d': "distinct (take j ps @ ps ! j # drop (Suc j) ps)" using d s by simp
  have n: "prev ps (ps ! j) = last (ps ! j # drop (Suc j) ps @ take j ps)"
    using prev_split [OF d'] s by simp
  show ?thesis
  proof (cases j)
    case 0
    have "ps \<noteq> []" using j by auto
    then have "last (ps ! 0 # drop (Suc 0) ps) = ps ! (length ps - 1)"
      by (cases ps) (simp_all add: last_conv_nth)
    with n 0 j show ?thesis by simp
  next
    case (Suc k)
    then have "take j ps \<noteq> []" using j by auto
    then have "last (ps ! j # drop (Suc j) ps @ take j ps) = last (take j ps)" by simp
    also have "\<dots> = ps ! k" using Suc j by (simp add: take_Suc_conv_app_nth)
    finally have "prev ps (ps ! j) = ps ! k" using n by simp
    moreover have "(j + length ps - 1) mod length ps = k" using Suc j by simp
    ultimately show ?thesis by simp
  qed
qed

lemma try_clip_defect:
  assumes d: "distinct ps" and i: "i < length ps" and l: "length ps \<ge> 3"
    and t: "try_clip A (ps, T, out) i = Some st'"
  shows "fst (snd st') + shoelace (fst st') = T + shoelace ps"
    and "distinct (fst st')" and "length (fst st') < length ps"
proof -
  let ?n = "length ps"
  let ?j = "(i + 1) mod ?n"
  let ?p0 = "ps ! i" and ?p1 = "ps ! ?j" and ?p2 = "ps ! ((i + 2) mod ?n)"
  let ?area = "triangle_area_1 (snd ?p0) (snd ?p1) (snd ?p2)"
  have pos: "0 < ?n" using l by (cases ps) simp_all
  have j: "?j < ?n" using pos by simp
  have "(?j + ?n - 1) mod ?n = i"
    using i pos by (cases "Suc i = ?n") (simp_all add: mod_Suc)
  then have p0: "prev ps ?p1 = ?p0" using prev_nth [OF d j] by simp
  have "(?j + 1) mod ?n = (i + 2) mod ?n"
    by (simp add: mod_Suc_eq flip: Suc_eq_plus1)
  then have p2: "next ps ?p1 = ?p2" using next_nth [OF d j] by simp
  have m: "?p1 \<in> set ps" using j by simp
  have l2: "length ps \<ge> 2" using l by simp
  have sh: "shoelace ps = shoelace (remove1 ?p1 ps) + ?area"
    using shoelace_remove1 [OF d m l2] unfolding p0 p2 triangle_area_1_def .
  from t have f: "fst st' = remove1 ?p1 ps"
    by (auto simp: try_clip_def Let_def split: if_splits)
  from t have "fst (snd st') = T + ?area"
    by (auto simp: try_clip_def Let_def split: if_splits)
  with sh f show "fst (snd st') + shoelace (fst st') = T + shoelace ps" by simp
  show "distinct (fst st')" using d f by simp
  show "length (fst st') < length ps" using f m i by (simp add: length_remove1)
qed

lemma clip_round_defect:
  assumes d: "distinct (fst st)" and l: "length (fst st) \<ge> 3"
    and c: "clip_round A st = Some st'"
  shows "fst (snd st') + shoelace (fst st') = fst (snd st) + shoelace (fst st)"
    and "distinct (fst st')"
proof -
  obtain ps T out where st: "st = (ps, T, out)" by (cases st) auto
  from c obtain i where i: "i < length ps" and t: "try_clip A (ps, T, out) i = Some st'"
    by (auto simp: clip_round_def st find_Some_iff split: option.splits)
  from try_clip_defect [OF _ i _ t] d l
  show "fst (snd st') + shoelace (fst st') = fst (snd st) + shoelace (fst st)"
    and "distinct (fst st')"
    by (simp_all add: st)
qed

lemma clip_loop_defect:
  assumes "clip_loop A st = Some r" and "distinct (fst st)"
  shows "fst (snd r) + shoelace (fst r) = fst (snd st) + shoelace (fst st) \<and> length (fst r) < 3"
proof -
  have "distinct (fst st) \<longrightarrow>
    fst (snd r) + shoelace (fst r) = fst (snd st) + shoelace (fst st) \<and> length (fst r) < 3"
  proof (rule clip_loop.raw_induct [where P = "\<lambda>B s t. distinct (fst s) \<longrightarrow>
      fst (snd t) + shoelace (fst t) = fst (snd s) + shoelace (fst s) \<and> length (fst t) < 3",
      OF _ assms(1)])
    fix f B s t
    assume IH: "\<And>B s t. f B s = Some t \<Longrightarrow> distinct (fst s) \<longrightarrow>
        fst (snd t) + shoelace (fst t) = fst (snd s) + shoelace (fst s) \<and> length (fst t) < 3"
      and step: "(if 3 \<le> length (fst s)
                  then case clip_round B s of None \<Rightarrow> f B s | Some s' \<Rightarrow> f B s'
                  else Some s) = Some t"
    show "distinct (fst s) \<longrightarrow>
        fst (snd t) + shoelace (fst t) = fst (snd s) + shoelace (fst s) \<and> length (fst t) < 3"
    proof
      assume d: "distinct (fst s)"
      show "fst (snd t) + shoelace (fst t) = fst (snd s) + shoelace (fst s) \<and> length (fst t) < 3"
      proof (cases "3 \<le> length (fst s)")
        case False
        with step show ?thesis by simp
      next
        case True
        show ?thesis
        proof (cases "clip_round B s")
          case None
          with step True have "f B s = Some t" by simp
          from IH [OF this] d show ?thesis by simp
        next
          case (Some s')
          with step True have "f B s' = Some t" by simp
          from IH [OF this] clip_round_defect [OF d True Some] show ?thesis by simp
        qed
      qed
    qed
  qed
  with assms(2) show ?thesis by simp
qed

text \<open>Whenever \<^verbatim>\<open>main\<close> of earclipper.cpp reaches its final assertion, the assertion passes:
  its loop is left with fewer than 3 vertices only, and the triangles written until then add
  up to the integrated area.\<close>

lemma main_assertion_passes: "main pts \<noteq> Some (Inl Assert_area)"
proof
  assume a: "main pts = Some (Inl Assert_area)"
  define qs where "qs = (let ps = enumerate 0 pts in
      if x (snd (hd ps)) = x (snd (last ps)) \<and> y (snd (hd ps)) = y (snd (last ps))
      then butlast ps else ps)"
  have d: "distinct qs" by (auto simp: qs_def Let_def distinct_butlast)
  have i: "integrate_polygon qs = shoelace qs"
  proof (cases "length qs \<ge> 3")
    case True
    then show ?thesis by (rule integrate_polygon_shoelace [THEN conjunct2])
  next
    case False
    then show ?thesis by (simp add: integrate_polygon_def shoelace_short)
  qed
  from a obtain r where r: "clip_loop (integrate_polygon qs) (qs, 0, []) = Some r"
    and n: "\<not> abs_Num (fst (snd r) - integrate_polygon qs) \<le>s 0"
    by (auto simp: main_def Let_def qs_def split: if_splits option.splits prod.splits)
  from clip_loop_defect [OF r] d have "fst (snd r) + shoelace (fst r) = shoelace qs"
    and "length (fst r) < 3" by simp_all
  then have "fst (snd r) = integrate_polygon qs" by (simp add: shoelace_short i)
  with n show False by (simp add: abs_Num_def word_sle_eq)
qed

subsection \<open>A polygon on which the check fails\<close>

text \<open>
  A simple polygon of nine vertices on which \<^verbatim>\<open>operator()\<close> ends in the failure of its final
  assertion, when \<^verbatim>\<open>eartip_points.begin()\<close> yields the most recently inserted ear tip. The
  ear at \<open>(2, 3)\<close> is clipped first, although the concave vertex \<open>(1, 2)\<close> lies on its
  diagonal from \<open>(2, 2)\<close> to \<open>(0, 2)\<close>. The next triangle, \<open>(2, 2) (0, 2) (0, 0)\<close>, has the
  two concave vertices \<open>(1, 1)\<close> and \<open>(1, 2)\<close> on its edges and none strictly inside, so it is
  accepted as an ear, but the polygon edge between them crosses it. After six iterations
  no ear tip is left, three vertices remain, and the triangles add up to 11 against an
  integrated area of 9 (times \<open>scale\<^sup>2\<close>).
\<close>

lemma nonagon_simple: "simple_polygon nonagon"
  by code_simp

lemma nonagon_new: "EarClipper_new nonagon = Inr nonagon0"
  by code_simp

lemma nonagon_steps: "clip_steps 6 hd nonagon0 = Inr nonagon6"
  by code_simp

lemma nonagon_run: "operator_call hd nonagon0 = Inl Assert_area"
  by code_simp

text \<open>
  Claim C1 at the nonagon \<open>(0, 2) (0, 0) (2, 1) (1, 1) (1, 2) (3, 1) (3, 3) (2, 2) (2, 3)\<close>, a
  simple polygon: the loop of \<^verbatim>\<open>operator()\<close> terminates after six iterations with three
  vertices left and no ear tip, \<open>area_from_triangulation\<close> and \<open>area_from_integral\<close> differ,
  and the final assertion fails.
\<close>

theorem area_assertion_fails:
  "simple_polygon nonagon \<and> EarClipper_new nonagon = Inr nonagon0 \<and>
   clip_steps 6 hd nonagon0 = Inr nonagon6 \<and> eartip_points nonagon6 = [] \<and>
   area_from_triangulation nonagon6 = 11 * scale * scale \<and>
   area_from_integral nonagon6 = 9 * scale * scale \<and>
   operator_call hd nonagon0 = Inl Assert_area"
  using nonagon_simple nonagon_new nonagon_steps nonagon_run
  by (simp add: nonagon6_def)

section \<open>Fewer than three vertices\<close>

text \<open>The constructor of the class checks the size after the closing duplicate is dropped.\<close>

lemma EarClipper_new_aborts:
  assumes "pts \<noteq> []"
    and "length (if x (hd pts) = x (last pts) \<and> y (hd pts) = y (last pts)
                 then butlast pts else pts) < 3"
  shows "EarClipper_new pts = Inl Assert_size"
proof -
  have h: "snd (hd (enumerate 0 pts)) = hd pts" using assms(1) by (cases pts) simp_all
  have "enumerate 0 pts \<noteq> []" using assms(1) by (cases pts) simp_all
  then have "snd (last (enumerate 0 pts)) = last pts"
    using assms(1) by (simp add: last_conv_nth nth_enumerate_eq)
  with h assms show ?thesis
    by (auto simp: EarClipper_new_def Let_def split: if_splits)
qed

text \<open>
  Claim C4 at the input \<open>(0, 0), (1, 0), (0, 0)\<close>: \<^verbatim>\<open>main\<close> of earclipper.cpp checks the size
  before it drops the closing duplicate, so it goes on with two vertices, skips the loop,
  passes its final assertion and returns; the constructor of the class aborts.
\<close>

theorem main_continues_with_two_vertices:
  "main [scaled 0 0, scaled 1 0, scaled 0 0] =
     Some (Inr ([(0, scaled 0 0), (1, scaled 1 0)], 0, [])) \<and>
   EarClipper_new [scaled 0 0, scaled 1 0, scaled 0 0] = Inl Assert_size"
  by (simp add: main_def EarClipper_new_def clip_loop.simps integrate_polygon_def Let_def
        abs_Num_def word_sle_eq word_sless_alt)

section \<open>The template outside the class\<close>

lemma integrate_loop_template_undefined: "integrate_loop_template ps tot = Inl Invalid_iterator"
  by (induction ps tot rule: integrate_loop_template.induct) simp_all

lemma integrate_polygon_template_undefined:
  "length ps \<ge> 3 \<Longrightarrow> integrate_polygon_template ps = Inl Invalid_iterator"
  by (simp add: integrate_polygon_template_def integrate_loop_template_undefined)

text \<open>
  Claim C9 at the triangle of Scenario A: the member function and the lambda return the
  shoelace sum; the template does not reach the closing edge.
\<close>

theorem template_reads_past_the_end:
  "length ccw_triangle \<ge> 3 \<and> integrate_polygon_template ccw_triangle = Inl Invalid_iterator \<and>
   integrate_polygon ccw_triangle = shoelace ccw_triangle"
proof -
  have l: "length ccw_triangle \<ge> 3" by (simp add: ccw_triangle_def)
  have "integrate_polygon ccw_triangle = shoelace ccw_triangle"
    by (simp add: integrate_polygon_def shoelace_def edges_def ccw_triangle_def scale_def)
  with l integrate_polygon_template_undefined [OF l] show ?thesis by simp
qed

end
